theory Spec2Isabelle
  imports Complex_Main "HOL-Library.Log_Nat"
begin

section \<open>Python values\<close>

text \<open>
  The evaluator of \<^verbatim>\<open>evaluate_results_of_NewCodeBench.py\<close> compares values that come
  from JSON test fixtures and from running candidate code. They are modelled as a
  datatype of the value kinds \<^verbatim>\<open>results_equivalent\<close> distinguishes: \<^verbatim>\<open>None\<close>,
  \<^verbatim>\<open>bool\<close>, \<^verbatim>\<open>int\<close> (unbounded), \<^verbatim>\<open>float\<close>, \<^verbatim>\<open>str\<close>, \<^verbatim>\<open>list\<close>, \<^verbatim>\<open>tuple\<close>,
  \<^verbatim>\<open>dict\<close> (its items in insertion order) and \<^verbatim>\<open>set\<close> (its elements in iteration
  order).

  A \<^verbatim>\<open>float\<close> is an IEEE 754 binary64 number: a finite value is the rational it
  denotes (the sign of zero is dropped: no operation used here tells \<^verbatim>\<open>-0.0\<close> from
  \<^verbatim>\<open>0.0\<close>), or one of the two infinities, or NaN. A NaN carries the identity of its
  object, a number: two NaN with the same number are one and the same object. Python's
  containers find an element equal to the very same object before they ask \<^verbatim>\<open>==\<close>, and
  NaN is the one value that is not \<^verbatim>\<open>==\<close> to itself, so this is the one place where the
  identity of an object decides a comparison (\<^verbatim>\<open>json.loads\<close> gives every NaN of a
  document the same object).
\<close>

datatype pyfloat = Finite rat | PosInf | NegInf | NaN nat

datatype pyval =
    VNone
  | VBool bool
  | VInt int
  | VFloat pyfloat
  | VStr string
  | VList "pyval list"
  | VTuple "pyval list"
  | VDict "(pyval \<times> pyval) list"
  | VSet "pyval list"

text \<open>The exceptions the modelled code can raise or let through.\<close>

datatype py_error =
    OverflowError
  | KeyError
  | AssertionError
  | CandidateException string
  | CandidateBaseException string
  | NameError
  | TypeError

subsection \<open>Binary64 rounding\<close>

text \<open>
  \<open>round_double q\<close> is the binary64 number nearest to the rational \<open>q\<close>, ties to the
  even significand, and an infinity when the rounded magnitude reaches \<open>2 ^ 1024\<close>.
  The unit in the last place of a magnitude in \<open>[2 ^ e, 2 ^ (e + 1))\<close> is
  \<open>2 ^ (e - 52)\<close>, and \<open>2 ^ (- 1074)\<close> for the subnormal range below \<open>2 ^ (- 1022)\<close>.
\<close>

definition pow2 :: "int \<Rightarrow> rat" where
  "pow2 e = (if 0 \<le> e then 2 ^ nat e else 1 / 2 ^ nat (- e))"

definition floor_log2 :: "rat \<Rightarrow> int" where
  "floor_log2 q = (if 1 \<le> q then bitlen \<lfloor>q\<rfloor> - 1 else - bitlen (\<lceil>1 / q\<rceil> - 1))"

definition round_half_even :: "rat \<Rightarrow> int" where
  "round_half_even x =
     (let f = \<lfloor>x\<rfloor>; r = x - of_int f
      in if r < 1 / 2 then f
         else if 1 / 2 < r then f + 1
         else if even f then f else f + 1)"

definition round_double :: "rat \<Rightarrow> pyfloat" where
  "round_double q =
     (if q = 0 then Finite 0
      else let a = \<bar>q\<bar>;
               e = max (floor_log2 a) (- 1022);
               ulp = pow2 (e - 52);
               r = of_int (round_half_even (a / ulp)) * ulp
           in if pow2 1024 \<le> r then (if 0 < q then PosInf else NegInf)
              else Finite (if 0 < q then r else - r))"

text \<open>
  A decimal literal of the source, such as \<^verbatim>\<open>1e-9\<close> or \<^verbatim>\<open>3.1\<close>, denotes the binary64
  number nearest to its decimal value.
\<close>

definition float_literal :: "rat \<Rightarrow> pyfloat" where
  "float_literal q = round_double q"

subsection \<open>Numbers: \<^verbatim>\<open>==\<close>, \<^verbatim>\<open>-\<close>, \<^verbatim>\<open>abs\<close>, \<^verbatim>\<open><\<close>\<close>

text \<open>
  \<^verbatim>\<open>isinstance(x, (int, float))\<close> holds of \<^verbatim>\<open>int\<close>, of \<^verbatim>\<open>float\<close> and of \<^verbatim>\<open>bool\<close>, which
  is a subclass of \<^verbatim>\<open>int\<close> with \<^verbatim>\<open>True == 1\<close> and \<^verbatim>\<open>False == 0\<close>.
\<close>

datatype pynum = NInt int | NFloat pyfloat

fun as_number :: "pyval \<Rightarrow> pynum option" where
  "as_number (VBool b) = Some (NInt (if b then 1 else 0))"
| "as_number (VInt i) = Some (NInt i)"
| "as_number (VFloat f) = Some (NFloat f)"
| "as_number _ = None"

definition is_number :: "pyval \<Rightarrow> bool" where
  "is_number v = (as_number v \<noteq> None)"

text \<open>
  \<^verbatim>\<open>==\<close> between numbers compares the exact mathematical values (an \<^verbatim>\<open>int\<close> is not
  rounded to a \<^verbatim>\<open>float\<close> first); NaN equals nothing, itself included.
\<close>

fun float_eq :: "pyfloat \<Rightarrow> pyfloat \<Rightarrow> bool" where
  "float_eq (Finite p) (Finite q) = (p = q)"
| "float_eq PosInf PosInf = True"
| "float_eq NegInf NegInf = True"
| "float_eq _ _ = False"

fun num_eq :: "pynum \<Rightarrow> pynum \<Rightarrow> bool" where
  "num_eq (NInt i) (NInt j) = (i = j)"
| "num_eq (NInt i) (NFloat f) = float_eq (Finite (of_int i)) f"
| "num_eq (NFloat f) (NInt j) = float_eq f (Finite (of_int j))"
| "num_eq (NFloat f) (NFloat g) = float_eq f g"

text \<open>
  Converting an \<^verbatim>\<open>int\<close> to \<^verbatim>\<open>float\<close> for mixed arithmetic rounds it to binary64 and
  raises \<^verbatim>\<open>OverflowError\<close> when the result is not finite.
\<close>

definition int_to_float :: "int \<Rightarrow> py_error + pyfloat" where
  "int_to_float i =
     (case round_double (of_int i) of
        Finite q \<Rightarrow> Inr (Finite q)
      | _ \<Rightarrow> Inl OverflowError)"

text \<open>
  Binary64 subtraction: exact difference, rounded; it never raises. A NaN that it
  returns is a new object; the code only compares it with \<^verbatim>\<open><\<close>, and its identity is
  written 0.
\<close>

fun float_sub :: "pyfloat \<Rightarrow> pyfloat \<Rightarrow> pyfloat" where
  "float_sub (Finite p) (Finite q) = round_double (p - q)"
| "float_sub (NaN i) _ = NaN 0"
| "float_sub _ (NaN j) = NaN 0"
| "float_sub PosInf PosInf = NaN 0"
| "float_sub NegInf NegInf = NaN 0"
| "float_sub PosInf _ = PosInf"
| "float_sub NegInf _ = NegInf"
| "float_sub (Finite p) PosInf = NegInf"
| "float_sub (Finite p) NegInf = PosInf"

fun num_sub :: "pynum \<Rightarrow> pynum \<Rightarrow> py_error + pynum" where
  "num_sub (NInt i) (NInt j) = Inr (NInt (i - j))"
| "num_sub (NInt i) (NFloat g) =
     (case int_to_float i of Inl e \<Rightarrow> Inl e | Inr f \<Rightarrow> Inr (NFloat (float_sub f g)))"
| "num_sub (NFloat f) (NInt j) =
     (case int_to_float j of Inl e \<Rightarrow> Inl e | Inr g \<Rightarrow> Inr (NFloat (float_sub f g)))"
| "num_sub (NFloat f) (NFloat g) = Inr (NFloat (float_sub f g))"

fun float_abs :: "pyfloat \<Rightarrow> pyfloat" where
  "float_abs (Finite q) = Finite \<bar>q\<bar>"
| "float_abs PosInf = PosInf"
| "float_abs NegInf = PosInf"
| "float_abs (NaN i) = NaN i"

text \<open>The value of the negation of a float.\<close>

fun float_neg :: "pyfloat \<Rightarrow> pyfloat" where
  "float_neg (Finite q) = Finite (- q)"
| "float_neg PosInf = NegInf"
| "float_neg NegInf = PosInf"
| "float_neg (NaN i) = NaN i"

fun num_abs :: "pynum \<Rightarrow> pynum" where
  "num_abs (NInt i) = NInt \<bar>i\<bar>"
| "num_abs (NFloat f) = NFloat (float_abs f)"

text \<open>\<^verbatim>\<open><\<close> between numbers is exact as well; every comparison with NaN is false.\<close>

fun float_lt :: "pyfloat \<Rightarrow> pyfloat \<Rightarrow> bool" where
  "float_lt (Finite p) (Finite q) = (p < q)"
| "float_lt (NaN i) _ = False"
| "float_lt _ (NaN j) = False"
| "float_lt _ NegInf = False"
| "float_lt PosInf _ = False"
| "float_lt NegInf _ = True"
| "float_lt (Finite p) PosInf = True"

fun num_lt :: "pynum \<Rightarrow> pynum \<Rightarrow> bool" where
  "num_lt (NInt i) (NInt j) = (i < j)"
| "num_lt (NInt i) (NFloat g) = float_lt (Finite (of_int i)) g"
| "num_lt (NFloat f) (NInt j) = float_lt f (Finite (of_int j))"
| "num_lt (NFloat f) (NFloat g) = float_lt f g"

subsection \<open>\<^verbatim>\<open>==\<close> on values\<close>

text \<open>
  \<^verbatim>\<open>x is y\<close>, as far as a comparison can depend on it: both are the same NaN object.
  (Every other object that is the same object as \<open>y\<close> is also \<^verbatim>\<open>==\<close> to \<open>y\<close>.)
\<close>

fun same_nan :: "pyval \<Rightarrow> pyval \<Rightarrow> bool" where
  "same_nan (VFloat (NaN i)) y = (y = VFloat (NaN i))"
| "same_nan _ _ = False"

text \<open>
  Python's \<^verbatim>\<open>==\<close> on the built-in kinds. Numbers compare by value across \<^verbatim>\<open>bool\<close>,
  \<^verbatim>\<open>int\<close> and \<^verbatim>\<open>float\<close>; a list equals only a list and a tuple only a tuple, of the
  same length and with equal elements; two dicts are equal when they have the same
  number of items and every key of the left one is found in the right one with an
  equal value; two sets are equal when they have the same number of elements and
  every element of the left one is in the right one. Inside a container, "equal" and
  "found" are \<^verbatim>\<open>x is y or x == y\<close>, the comparison of \<^verbatim>\<open>PyObject_RichCompareBool\<close>; at
  the top, \<^verbatim>\<open>==\<close> on two floats looks at the values only.
\<close>

fun py_eq :: "pyval \<Rightarrow> pyval \<Rightarrow> bool" where
  "py_eq VNone b = (b = VNone)"
| "py_eq (VBool p) b =
     (case as_number b of None \<Rightarrow> False | Some y \<Rightarrow> num_eq (NInt (if p then 1 else 0)) y)"
| "py_eq (VInt i) b =
     (case as_number b of None \<Rightarrow> False | Some y \<Rightarrow> num_eq (NInt i) y)"
| "py_eq (VFloat f) b =
     (case as_number b of None \<Rightarrow> False | Some y \<Rightarrow> num_eq (NFloat f) y)"
| "py_eq (VStr s) b = (case b of VStr t \<Rightarrow> s = t | _ \<Rightarrow> False)"
| "py_eq (VList xs) b =
     (case b of VList ys \<Rightarrow> list_all2 (\<lambda>x y. same_nan x y \<or> py_eq x y) xs ys | _ \<Rightarrow> False)"
| "py_eq (VTuple xs) b =
     (case b of VTuple ys \<Rightarrow> list_all2 (\<lambda>x y. same_nan x y \<or> py_eq x y) xs ys | _ \<Rightarrow> False)"
| "py_eq (VDict d) b =
     (case b of
        VDict d' \<Rightarrow>
          length d = length d' \<and>
          list_all
            (\<lambda>kv. case find (\<lambda>kv'. same_nan (fst kv) (fst kv') \<or> py_eq (fst kv) (fst kv')) d' of
                    None \<Rightarrow> False
                  | Some kv' \<Rightarrow> same_nan (snd kv) (snd kv') \<or> py_eq (snd kv) (snd kv'))
            d
      | _ \<Rightarrow> False)"
| "py_eq (VSet xs) b =
     (case b of
        VSet ys \<Rightarrow>
          length xs = length ys \<and>
          list_all (\<lambda>x. list_ex (\<lambda>y. same_nan x y \<or> py_eq x y) ys) xs
      | _ \<Rightarrow> False)"

text \<open>The comparison of two elements, keys or values inside containers.\<close>

definition py_eq_or_is :: "pyval \<Rightarrow> pyval \<Rightarrow> bool" where
  "py_eq_or_is x y = (same_nan x y \<or> py_eq x y)"

lemma py_eq_list [simp]:
  "py_eq (VList xs) b = (case b of VList ys \<Rightarrow> list_all2 py_eq_or_is xs ys | _ \<Rightarrow> False)"
  by (cases b) (simp_all add: py_eq_or_is_def [abs_def] cong: option.case_cong)

lemma py_eq_tuple [simp]:
  "py_eq (VTuple xs) b = (case b of VTuple ys \<Rightarrow> list_all2 py_eq_or_is xs ys | _ \<Rightarrow> False)"
  by (cases b) (simp_all add: py_eq_or_is_def [abs_def] cong: option.case_cong)

lemma py_eq_dict [simp]:
  "py_eq (VDict d) b =
     (case b of
        VDict d' \<Rightarrow>
          length d = length d' \<and>
          list_all
            (\<lambda>kv. case find (\<lambda>kv'. py_eq_or_is (fst kv) (fst kv')) d' of
                    None \<Rightarrow> False
                  | Some kv' \<Rightarrow> py_eq_or_is (snd kv) (snd kv'))
            d
      | _ \<Rightarrow> False)"
  by (cases b) (simp_all add: py_eq_or_is_def [abs_def] cong: option.case_cong)

lemma py_eq_set [simp]:
  "py_eq (VSet xs) b =
     (case b of
        VSet ys \<Rightarrow> length xs = length ys \<and> list_all (\<lambda>x. list_ex (py_eq_or_is x) ys) xs
      | _ \<Rightarrow> False)"
  by (cases b) (simp_all add: py_eq_or_is_def [abs_def] cong: option.case_cong)

declare py_eq.simps(6-9) [simp del]

lemma num_eq_nan [simp]: "num_eq (NFloat (NaN n)) x = False"
  by (cases x) simp_all

lemma py_eq_or_is_simps [simp]:
  "py_eq_or_is VNone y = py_eq VNone y"
  "py_eq_or_is (VBool p) y = py_eq (VBool p) y"
  "py_eq_or_is (VInt i) y = py_eq (VInt i) y"
  "py_eq_or_is (VFloat (Finite q)) y = py_eq (VFloat (Finite q)) y"
  "py_eq_or_is (VFloat PosInf) y = py_eq (VFloat PosInf) y"
  "py_eq_or_is (VFloat NegInf) y = py_eq (VFloat NegInf) y"
  "py_eq_or_is (VFloat (NaN n)) y = (y = VFloat (NaN n))"
  "py_eq_or_is (VStr s) y = py_eq (VStr s) y"
  "py_eq_or_is (VList xs) y = py_eq (VList xs) y"
  "py_eq_or_is (VTuple xs) y = py_eq (VTuple xs) y"
  "py_eq_or_is (VDict d) y = py_eq (VDict d) y"
  "py_eq_or_is (VSet xs) y = py_eq (VSet xs) y"
  by (auto simp: py_eq_or_is_def split: option.splits pynum.splits)

subsection \<open>Strings, sequences, dicts and sets\<close>

text \<open>
  \<^verbatim>\<open>str.strip()\<close> removes leading and trailing whitespace. A \<open>char\<close> is a code point
  below 256; those that \<^verbatim>\<open>str.isspace\<close> accepts are 9 to 13, 28 to 32, 133 and 160.
\<close>

definition py_isspace :: "char \<Rightarrow> bool" where
  "py_isspace c =
     (let n = (of_char c :: nat) in (9 \<le> n \<and> n \<le> 13) \<or> (28 \<le> n \<and> n \<le> 32) \<or> n = 133 \<or> n = 160)"

definition py_strip :: "string \<Rightarrow> string" where
  "py_strip s = rev (dropWhile py_isspace (rev (dropWhile py_isspace s)))"

fun is_str :: "pyval \<Rightarrow> bool" where
  "is_str (VStr _) = True"
| "is_str _ = False"

fun str_of :: "pyval \<Rightarrow> string" where
  "str_of (VStr s) = s"
| "str_of _ = []"

text \<open>\<^verbatim>\<open>isinstance(x, (list, tuple))\<close> and \<^verbatim>\<open>list(x)\<close> for such an \<open>x\<close>.\<close>

fun is_list_or_tuple :: "pyval \<Rightarrow> bool" where
  "is_list_or_tuple (VList _) = True"
| "is_list_or_tuple (VTuple _) = True"
| "is_list_or_tuple _ = False"

fun list_of :: "pyval \<Rightarrow> pyval list" where
  "list_of (VList xs) = xs"
| "list_of (VTuple xs) = xs"
| "list_of _ = []"

fun is_dict :: "pyval \<Rightarrow> bool" where
  "is_dict (VDict _) = True"
| "is_dict _ = False"

fun dict_items :: "pyval \<Rightarrow> (pyval \<times> pyval) list" where
  "dict_items (VDict d) = d"
| "dict_items _ = []"

fun is_set :: "pyval \<Rightarrow> bool" where
  "is_set (VSet _) = True"
| "is_set _ = False"

text \<open>
  \<^verbatim>\<open>set(d.keys())\<close>: the keys of a dict are pairwise distinct, so the set has exactly
  these elements; \<open>py_set_eq\<close> is \<^verbatim>\<open>==\<close> on two such sets.
\<close>

definition dict_keys :: "pyval \<Rightarrow> pyval list" where
  "dict_keys v = map fst (dict_items v)"

definition py_set_eq :: "pyval list \<Rightarrow> pyval list \<Rightarrow> bool" where
  "py_set_eq xs ys = py_eq (VSet xs) (VSet ys)"

text \<open>
  \<^verbatim>\<open>d[key]\<close>: the value of the item whose key is \<open>key\<close> or equals it, or \<^verbatim>\<open>KeyError\<close>.
\<close>

definition py_getitem :: "(pyval \<times> pyval) list \<Rightarrow> pyval \<Rightarrow> py_error + pyval" where
  "py_getitem d k =
     (case find (\<lambda>kv'. py_eq_or_is k (fst kv')) d of
        None \<Rightarrow> Inl KeyError
      | Some kv' \<Rightarrow> Inr (snd kv'))"

lemma dict_item_size:
  "is_dict v \<Longrightarrow> kv \<in> set (dict_items v) \<Longrightarrow> size (snd kv) < size v"
proof -
  have item: "kv \<in> set its \<Longrightarrow> size (snd kv) < Suc (size_list (size_prod size size) its)"
    for its :: "(pyval \<times> pyval) list"
    by (induction its) auto
  show "is_dict v \<Longrightarrow> kv \<in> set (dict_items v) \<Longrightarrow> size (snd kv) < size v"
    using item by (cases v) auto
qed

section \<open>The equivalence engine\<close>

text \<open>
  The loop \<^verbatim>\<open>for x in xs: if not f(x): return False\<close> followed by \<^verbatim>\<open>return True\<close>,
  where \<open>f\<close> may raise: the first item that raises or fails ends the loop.
\<close>

fun all_or_first_failure :: "('a \<Rightarrow> py_error + bool) \<Rightarrow> 'a list \<Rightarrow> py_error + bool" where
  "all_or_first_failure f [] = Inr True"
| "all_or_first_failure f (x # xs) =
     (case f x of
        Inl e \<Rightarrow> Inl e
      | Inr ok \<Rightarrow> if ok then all_or_first_failure f xs else Inr False)"

lemma all_or_first_failure_cong [fundef_cong]:
  "xs = ys \<Longrightarrow> (\<And>x. x \<in> set ys \<Longrightarrow> f x = g x) \<Longrightarrow>
   all_or_first_failure f xs = all_or_first_failure g ys"
  by (induction ys arbitrary: xs) (auto split: sum.splits)

text \<open>The expression \<^verbatim>\<open>abs(result - expected) < 1e-9\<close> on two numbers.\<close>

definition abs_diff_below_tolerance :: "pynum \<Rightarrow> pynum \<Rightarrow> py_error + bool" where
  "abs_diff_below_tolerance x y =
     (case num_sub x y of
        Inl e \<Rightarrow> Inl e
      | Inr d \<Rightarrow> Inr (num_lt (num_abs d) (NFloat (float_literal (1 / 10 ^ 9)))))"

text \<open>
  \<^verbatim>\<open>results_equivalent(result, expected)\<close> of the host process, rule by rule in the
  order of the source. In the dict rule \<^verbatim>\<open>result[key]\<close> is the value of the item being
  visited, and \<^verbatim>\<open>expected[key]\<close> is a lookup.
\<close>

function results_equivalent :: "pyval \<Rightarrow> pyval \<Rightarrow> py_error + bool" where
  "results_equivalent result expected =
     (if py_eq result expected then Inr True
      else if result = VNone \<and> expected = VNone then Inr True
      else if is_list_or_tuple result \<and> is_list_or_tuple expected then
        Inr (py_eq (VList (list_of result)) (VList (list_of expected)))
      else if is_dict result \<and> is_dict expected then
        (if \<not> py_set_eq (dict_keys result) (dict_keys expected) then Inr False
         else all_or_first_failure
                (\<lambda>kv. case py_getitem (dict_items expected) (fst kv) of
                        Inl e \<Rightarrow> Inl e
                      | Inr v' \<Rightarrow> results_equivalent (snd kv) v')
                (dict_items result))
      else if is_set result \<and> is_set expected then Inr (py_eq result expected)
      else if is_str result \<and> is_str expected then
        Inr (py_strip (str_of result) = py_strip (str_of expected))
      else if is_number result \<and> is_number expected then
        abs_diff_below_tolerance (the (as_number result)) (the (as_number expected))
      else Inr False)"
  by pat_completeness auto
termination
  by (relation "measure (\<lambda>(result, expected). size result)") (auto simp: dict_item_size)

declare results_equivalent.simps [simp del]

text \<open>
  The copy of \<^verbatim>\<open>results_equivalent\<close> that \<^verbatim>\<open>build_function_test_harness_flexible\<close>
  writes into the function-shaped harness. It has no rule for sets.
\<close>

function function_harness_results_equivalent :: "pyval \<Rightarrow> pyval \<Rightarrow> py_error + bool" where
  "function_harness_results_equivalent result expected =
     (if py_eq result expected then Inr True
      else if result = VNone \<and> expected = VNone then Inr True
      else if is_list_or_tuple result \<and> is_list_or_tuple expected then
        Inr (py_eq (VList (list_of result)) (VList (list_of expected)))
      else if is_dict result \<and> is_dict expected then
        (if \<not> py_set_eq (dict_keys result) (dict_keys expected) then Inr False
         else all_or_first_failure
                (\<lambda>kv. case py_getitem (dict_items expected) (fst kv) of
                        Inl e \<Rightarrow> Inl e
                      | Inr v' \<Rightarrow> function_harness_results_equivalent (snd kv) v')
                (dict_items result))
      else if is_str result \<and> is_str expected then
        Inr (py_strip (str_of result) = py_strip (str_of expected))
      else if is_number result \<and> is_number expected then
        abs_diff_below_tolerance (the (as_number result)) (the (as_number expected))
      else Inr False)"
  by pat_completeness auto
termination
  by (relation "measure (\<lambda>(result, expected). size result)") (auto simp: dict_item_size)

declare function_harness_results_equivalent.simps [simp del]

text \<open>The copy that \<^verbatim>\<open>build_class_test_harness\<close> writes into the object-shaped harness.\<close>

function class_harness_results_equivalent :: "pyval \<Rightarrow> pyval \<Rightarrow> py_error + bool" where
  "class_harness_results_equivalent result expected =
     (if py_eq result expected then Inr True
      else if result = VNone \<and> expected = VNone then Inr True
      else if is_list_or_tuple result \<and> is_list_or_tuple expected then
        Inr (py_eq (VList (list_of result)) (VList (list_of expected)))
      else if is_dict result \<and> is_dict expected then
        (if \<not> py_set_eq (dict_keys result) (dict_keys expected) then Inr False
         else all_or_first_failure
                (\<lambda>kv. case py_getitem (dict_items expected) (fst kv) of
                        Inl e \<Rightarrow> Inl e
                      | Inr v' \<Rightarrow> class_harness_results_equivalent (snd kv) v')
                (dict_items result))
      else if is_str result \<and> is_str expected then
        Inr (py_strip (str_of result) = py_strip (str_of expected))
      else if is_number result \<and> is_number expected then
        abs_diff_below_tolerance (the (as_number result)) (the (as_number expected))
      else Inr False)"
  by pat_completeness auto
termination
  by (relation "measure (\<lambda>(result, expected). size result)") (auto simp: dict_item_size)

declare class_harness_results_equivalent.simps [simp del]

section \<open>The task shape classifier\<close>

text \<open>
  \<^verbatim>\<open>is_class_based_task(test_cases)\<close>, on the list of \<^verbatim>\<open>(input, output)\<close> pairs that
  \<^verbatim>\<open>normalize_tests\<close> builds. Python's \<^verbatim>\<open>and\<close> evaluates its right operand only when the
  left one holds, so each index below is read only where it exists.
\<close>

fun is_list :: "pyval \<Rightarrow> bool" where
  "is_list (VList _) = True"
| "is_list _ = False"

definition is_class_based_task :: "(pyval \<times> pyval) list \<Rightarrow> bool" where
  "is_class_based_task test_cases =
     (if test_cases = [] then False
      else let first_input = fst (hd test_cases) in
        if is_list first_input \<and> length (list_of first_input) = 2 then
          (if is_list (list_of first_input ! 0) \<and> is_list (list_of first_input ! 1) then
             (if length (list_of (list_of first_input ! 0)) > 0 then
                is_str (list_of (list_of first_input ! 0) ! 0)
              else False)
           else False)
        else False)"

section \<open>Values as source text\<close>

text \<open>
  Both harness builders write the cases into the harness with \<^verbatim>\<open>py_repr\<close>, inside
  \<^verbatim>\<open>CASES = [ ... ]\<close>, and the driver evaluates that text when it runs. The text is
  modelled by its syntax tree. A number that is printed with a sign is one literal
  here, since its evaluation is the number. \<^verbatim>\<open>repr\<close> prints a float by the shortest
  decimal text that denotes it, and the three floats that are not finite as \<^verbatim>\<open>inf\<close>,
  \<^verbatim>\<open>-inf\<close> and \<^verbatim>\<open>nan\<close>: these are names, not literals. An empty set is printed as
  \<^verbatim>\<open>set()\<close>.
\<close>

datatype literal =
    LNone
  | LBool bool
  | LInt int
  | LFloat rat
  | LStr string
  | LName string
  | LNeg literal
  | LList "literal list"
  | LTuple "literal list"
  | LDict "(literal \<times> literal) list"
  | LSet "literal list"
  | LEmptySet

fun py_repr :: "pyval \<Rightarrow> literal" where
  "py_repr VNone = LNone"
| "py_repr (VBool b) = LBool b"
| "py_repr (VInt i) = LInt i"
| "py_repr (VFloat (Finite q)) = LFloat q"
| "py_repr (VFloat PosInf) = LName ''inf''"
| "py_repr (VFloat NegInf) = LNeg (LName ''inf'')"
| "py_repr (VFloat (NaN i)) = LName ''nan''"
| "py_repr (VStr s) = LStr s"
| "py_repr (VList xs) = LList (map py_repr xs)"
| "py_repr (VTuple xs) = LTuple (map py_repr xs)"
| "py_repr (VDict d) = LDict (map (\<lambda>kv. (py_repr (fst kv), py_repr (snd kv))) d)"
| "py_repr (VSet xs) = (if xs = [] then LEmptySet else LSet (map py_repr xs))"

text \<open>
  The global namespace in which the driver runs, after the candidate's code: the
  names that are bound to data values (none of the harness's own names is), and the
  number from which the NaN objects that do not exist yet are numbered.
\<close>

record global_namespace =
  data_names :: "string \<Rightarrow> pyval option"
  fresh_nan :: nat

text \<open>
  \<^verbatim>\<open>-x\<close>: defined on numbers, \<^verbatim>\<open>TypeError\<close> otherwise. The negation of a NaN is a new NaN
  object, which takes the next number \<open>n\<close>.
\<close>

fun py_neg :: "pyval \<Rightarrow> nat \<Rightarrow> py_error + pyval \<times> nat" where
  "py_neg (VBool b) n = Inr (VInt (- (if b then 1 else 0)), n)"
| "py_neg (VInt i) n = Inr (VInt (- i), n)"
| "py_neg (VFloat (NaN i)) n = Inr (VFloat (NaN n), Suc n)"
| "py_neg (VFloat f) n = Inr (VFloat (float_neg f), n)"
| "py_neg _ n = Inl TypeError"

text \<open>
  Building a dict or a set from evaluated items, in order: a key or element must be
  hashable (\<^verbatim>\<open>TypeError\<close> otherwise); a key that is already there keeps its place and
  takes the new value, an element that is already there is dropped.
\<close>

fun hashable :: "pyval \<Rightarrow> bool" where
  "hashable (VList xs) = False"
| "hashable (VDict d) = False"
| "hashable (VSet xs) = False"
| "hashable (VTuple xs) = list_all hashable xs"
| "hashable _ = True"

definition dict_insert :: "(pyval \<times> pyval) list \<Rightarrow> pyval \<times> pyval \<Rightarrow> (pyval \<times> pyval) list" where
  "dict_insert d kv =
     (if list_ex (\<lambda>kv'. py_eq_or_is (fst kv') (fst kv)) d
      then map (\<lambda>kv'. if py_eq_or_is (fst kv') (fst kv) then (fst kv', snd kv) else kv') d
      else d @ [kv])"

definition build_dict :: "(pyval \<times> pyval) list \<Rightarrow> py_error + pyval" where
  "build_dict kvs =
     (if list_all (\<lambda>kv. hashable (fst kv)) kvs then Inr (VDict (foldl dict_insert [] kvs))
      else Inl TypeError)"

definition set_add :: "pyval list \<Rightarrow> pyval \<Rightarrow> pyval list" where
  "set_add xs x = (if list_ex (\<lambda>y. py_eq_or_is y x) xs then xs else xs @ [x])"

definition build_set :: "pyval list \<Rightarrow> py_error + pyval" where
  "build_set vs =
     (if list_all hashable vs then Inr (VSet (foldl set_add [] vs)) else Inl TypeError)"

text \<open>
  The evaluation of such a text in a global namespace \<open>g\<close>, with \<open>n\<close> the next number
  for a new NaN object: a name that is not bound raises \<^verbatim>\<open>NameError\<close>; the elements of
  a display are evaluated from left to right, the first error ends the evaluation,
  and the dict or set is built once all its items are evaluated. \<^verbatim>\<open>set()\<close> calls what
  the name \<^verbatim>\<open>set\<close> is bound to: the built-in, unless the namespace binds the name to a
  data value, which cannot be called.
\<close>

function evaluate :: "(string \<Rightarrow> pyval option) \<Rightarrow> literal \<Rightarrow> nat \<Rightarrow> py_error + pyval \<times> nat"
  and evaluate_all ::
    "(string \<Rightarrow> pyval option) \<Rightarrow> literal list \<Rightarrow> nat \<Rightarrow> py_error + pyval list \<times> nat"
  and evaluate_items ::
    "(string \<Rightarrow> pyval option) \<Rightarrow> (literal \<times> literal) list \<Rightarrow> nat \<Rightarrow>
     py_error + (pyval \<times> pyval) list \<times> nat" where
  "evaluate g LNone n = Inr (VNone, n)"
| "evaluate g (LBool b) n = Inr (VBool b, n)"
| "evaluate g (LInt i) n = Inr (VInt i, n)"
| "evaluate g (LFloat q) n = Inr (VFloat (Finite q), n)"
| "evaluate g (LStr s) n = Inr (VStr s, n)"
| "evaluate g (LName x) n = (case g x of None \<Rightarrow> Inl NameError | Some v \<Rightarrow> Inr (v, n))"
| "evaluate g (LNeg l) n =
     (case evaluate g l n of Inl e \<Rightarrow> Inl e | Inr (v, n') \<Rightarrow> py_neg v n')"
| "evaluate g (LList ls) n =
     (case evaluate_all g ls n of Inl e \<Rightarrow> Inl e | Inr (vs, n') \<Rightarrow> Inr (VList vs, n'))"
| "evaluate g (LTuple ls) n =
     (case evaluate_all g ls n of Inl e \<Rightarrow> Inl e | Inr (vs, n') \<Rightarrow> Inr (VTuple vs, n'))"
| "evaluate g (LDict its) n =
     (case evaluate_items g its n of
        Inl e \<Rightarrow> Inl e
      | Inr (kvs, n') \<Rightarrow> (case build_dict kvs of Inl e \<Rightarrow> Inl e | Inr d \<Rightarrow> Inr (d, n')))"
| "evaluate g (LSet ls) n =
     (case evaluate_all g ls n of
        Inl e \<Rightarrow> Inl e
      | Inr (vs, n') \<Rightarrow> (case build_set vs of Inl e \<Rightarrow> Inl e | Inr v \<Rightarrow> Inr (v, n')))"
| "evaluate g LEmptySet n =
     (case g ''set'' of None \<Rightarrow> Inr (VSet [], n) | Some v \<Rightarrow> Inl TypeError)"
| "evaluate_all g [] n = Inr ([], n)"
| "evaluate_all g (l # ls) n =
     (case evaluate g l n of
        Inl e \<Rightarrow> Inl e
      | Inr (v, n') \<Rightarrow>
          (case evaluate_all g ls n' of
             Inl e \<Rightarrow> Inl e
           | Inr (vs, n'') \<Rightarrow> Inr (v # vs, n'')))"
| "evaluate_items g [] n = Inr ([], n)"
| "evaluate_items g ((key, val) # its) n =
     (case evaluate g key n of
        Inl e \<Rightarrow> Inl e
      | Inr (k, n1) \<Rightarrow>
          (case evaluate g val n1 of
             Inl e \<Rightarrow> Inl e
           | Inr (v, n2) \<Rightarrow>
               (case evaluate_items g its n2 of
                  Inl e \<Rightarrow> Inl e
                | Inr (kvs, n3) \<Rightarrow> Inr ((k, v) # kvs, n3))))"
  by pat_completeness auto
termination
  by (relation "measure (\<lambda>x. case x of
        Inl (g, l, n) \<Rightarrow> 2 * size l
      | Inr (Inl (g, ls, n)) \<Rightarrow> 2 * size_list size ls + 1
      | Inr (Inr (g, its, n)) \<Rightarrow> 2 * size_list (size_prod size size) its + 1)") auto

section \<open>The synthesized drivers\<close>

text \<open>
  The harness text is a program; what is modelled is the run of its \<^verbatim>\<open>__run_tests__\<close>
  after the candidate's code. The candidate is a parameter: its program state has
  some type \<open>'s\<close>, and a call either raises or returns a value, and leaves a new state.
  A run is described by the cases whose call was made (by index), the lines the
  driver printed, and the exception that ended the program, if any. The driver first
  resolves the entry point, then evaluates \<^verbatim>\<open>CASES = [ ... ]\<close>, outside every \<^verbatim>\<open>try\<close>, and
  then runs the loop over the evaluated cases.
\<close>

record harness_run =
  invoked :: "nat list"
  printed :: "string list"
  aborted :: "py_error option"

text \<open>Decimal digits of a number, as \<^verbatim>\<open>str\<close> and an f-string give them.\<close>

fun str_of_nat :: "nat \<Rightarrow> string" where
  "str_of_nat n =
     (if n < 10 then [char_of (48 + n)]
      else str_of_nat (n div 10) @ [char_of (48 + n mod 10)])"

declare str_of_nat.simps [simp del]

definition result_line :: "nat \<Rightarrow> nat \<Rightarrow> string" where
  "result_line passed total' = ''__RESULT__:'' @ str_of_nat passed @ ''/'' @ str_of_nat total'"

subsection \<open>Function-shaped driver\<close>









subsection \<open>Object-shaped driver\<close>

text \<open>
  The candidate's class: \<open>construct args s\<close> is \<^verbatim>\<open>obj = cls(*args)\<close> and
  \<open>invoke name args s\<close> is \<^verbatim>\<open>getattr(obj, name)(*args)\<close>, the instance bound to \<^verbatim>\<open>obj\<close>
  being part of the state; \<open>namespace\<close> is the global namespace that the candidate's
  code leaves. A case is \<^verbatim>\<open>(methods, args_list, expected_list)\<close>; each element of
  \<^verbatim>\<open>args_list\<close> is the list of one step's arguments.
\<close>

record 's candidate_class =
  construct :: "pyval list \<Rightarrow> 's \<Rightarrow> py_error + 's"
  invoke :: "pyval \<Rightarrow> pyval list \<Rightarrow> 's \<Rightarrow> py_error + pyval \<times> 's"
  namespace :: global_namespace

type_synonym class_case = "pyval list \<times> pyval list list \<times> pyval list"

text \<open>
  The inner loop over \<^verbatim>\<open>zip(methods, args_list, expected_list)\<close>, from step \<open>i\<close> on. Nothing
  catches an exception here: it ends the program.
\<close>

fun class_steps_loop ::
  "'s candidate_class \<Rightarrow> nat \<Rightarrow> (pyval \<times> pyval list \<times> pyval) list \<Rightarrow> 's \<Rightarrow> py_error + 's" where
  "class_steps_loop cls i [] s = Inr s"
| "class_steps_loop cls i ((method_name, method_args, expected) # rest) s =
     (case (if i = 0 then
              (case (if method_args \<noteq> [] then construct cls method_args s
                     else construct cls [] s) of
                 Inl e \<Rightarrow> Inl e
               | Inr s' \<Rightarrow> Inr (VNone, s'))
            else
              (if method_args \<noteq> [] then invoke cls method_name method_args s
               else invoke cls method_name [] s)) of
        Inl e \<Rightarrow> Inl e
      | Inr (result, s') \<Rightarrow>
          (case class_harness_results_equivalent result expected of
             Inl e \<Rightarrow> Inl e
           | Inr ok \<Rightarrow>
               if \<not> ok then Inl AssertionError
               else class_steps_loop cls (i + 1) rest s'))"

fun class_cases_loop ::
  "'s candidate_class \<Rightarrow> class_case list \<Rightarrow> nat \<Rightarrow> nat \<Rightarrow> nat \<Rightarrow> 's \<Rightarrow>
   nat list \<times> (py_error + nat \<times> nat)" where
  "class_cases_loop cls [] case_idx passed total' s = ([], Inr (passed, total'))"
| "class_cases_loop cls ((methods, args_list, expected_list) # rest) case_idx passed total' s =
     (if length methods \<noteq> length args_list \<or> length methods \<noteq> length expected_list
      then ([case_idx], Inl AssertionError)
      else
        (case class_steps_loop cls 0 (zip methods (zip args_list expected_list)) s of
           Inl e \<Rightarrow> ([case_idx], Inl e)
         | Inr s' \<Rightarrow>
             let r = class_cases_loop cls rest (case_idx + 1) (passed + 1) (total' + 1) s'
             in (case_idx # fst r, snd r)))"

text \<open>
  \<^verbatim>\<open>CASES = [(methods_src, args_list_src, expected_src), ...]\<close>, each of the three
  written with \<^verbatim>\<open>py_repr\<close> from a list: the evaluation of the whole list, from left to
  right.
\<close>

fun evaluate_lists ::
  "(string \<Rightarrow> pyval option) \<Rightarrow> literal list list \<Rightarrow> nat \<Rightarrow> py_error + pyval list list \<times> nat" where
  "evaluate_lists g [] n = Inr ([], n)"
| "evaluate_lists g (ls # rest) n =
     (case evaluate_all g ls n of
        Inl e \<Rightarrow> Inl e
      | Inr (vs, n1) \<Rightarrow>
          (case evaluate_lists g rest n1 of
             Inl e \<Rightarrow> Inl e
           | Inr (vss, n2) \<Rightarrow> Inr (vs # vss, n2)))"

fun evaluate_class_cases ::
  "(string \<Rightarrow> pyval option) \<Rightarrow> class_case list \<Rightarrow> nat \<Rightarrow> py_error + class_case list \<times> nat" where
  "evaluate_class_cases g [] n = Inr ([], n)"
| "evaluate_class_cases g ((methods, args_list, expected_list) # rest) n =
     (case evaluate_all g (map py_repr methods) n of
        Inl e \<Rightarrow> Inl e
      | Inr (methods', n1) \<Rightarrow>
          (case evaluate_lists g (map (map py_repr) args_list) n1 of
             Inl e \<Rightarrow> Inl e
           | Inr (args_list', n2) \<Rightarrow>
               (case evaluate_all g (map py_repr expected_list) n2 of
                  Inl e \<Rightarrow> Inl e
                | Inr (expected_list', n3) \<Rightarrow>
                    (case evaluate_class_cases g rest n3 of
                       Inl e \<Rightarrow> Inl e
                     | Inr (cases', n4) \<Rightarrow>
                         Inr ((methods', args_list', expected_list') # cases', n4)))))"

text \<open>
  For an empty list of cases \<^verbatim>\<open>build_class_test_harness\<close> returns the empty string:
  there is no driver, so nothing is called, printed or raised by one.
\<close>

definition class_harness_run_tests ::
  "'s candidate_class option \<Rightarrow> class_case list \<Rightarrow> 's \<Rightarrow> harness_run" where
  "class_harness_run_tests bound cases s =
     (if cases = [] then \<lparr>invoked = [], printed = [], aborted = None\<rparr>
      else
        (case bound of
           None \<Rightarrow> \<lparr>invoked = [], printed = [], aborted = Some AssertionError\<rparr>
         | Some cls \<Rightarrow>
             (case evaluate_class_cases (data_names (namespace cls)) cases
                     (fresh_nan (namespace cls)) of
                Inl e \<Rightarrow> \<lparr>invoked = [], printed = [], aborted = Some e\<rparr>
              | Inr (cases', n) \<Rightarrow>
                  (case class_cases_loop cls cases' 0 0 0 s of
                     (entered, Inl e) \<Rightarrow> \<lparr>invoked = entered, printed = [], aborted = Some e\<rparr>
                   | (entered, Inr counters) \<Rightarrow>
                       \<lparr>invoked = entered,
                        printed = [result_line (fst counters) (snd counters)],
                        aborted = None\<rparr>))))"

section \<open>The sandbox executor\<close>

text \<open>
  \<^verbatim>\<open>run_file_and_capture(py_code, timeout)\<close> writes the program to a temporary file and
  runs it with \<^verbatim>\<open>subprocess.run\<close>. What the operating system does with the program is
  a parameter: the child ran to its end with a return code and two captured streams,
  or \<^verbatim>\<open>subprocess.TimeoutExpired\<close> was raised, or another exception was, anywhere in
  the \<^verbatim>\<open>try\<close> block (the text is that of \<^verbatim>\<open>traceback.format_exc()\<close>).
\<close>

datatype process_outcome =
    Completed int "string option" "string option"
  | RaisedTimeoutExpired
  | RaisedException string

text \<open>\<^verbatim>\<open>needle in haystack\<close> on strings.\<close>

fun starts_with :: "string \<Rightarrow> string \<Rightarrow> bool" where
  "starts_with [] s = True"
| "starts_with (c # cs) [] = False"
| "starts_with (c # cs) (d # ds) = (c = d \<and> starts_with cs ds)"

fun contains :: "string \<Rightarrow> string \<Rightarrow> bool" where
  "contains needle [] = (needle = [])"
| "contains needle (c # cs) = (starts_with needle (c # cs) \<or> contains needle cs)"

text \<open>\<^verbatim>\<open>x or ""\<close> on a stream that is a string or \<^verbatim>\<open>None\<close>.\<close>

definition or_empty :: "string option \<Rightarrow> string" where
  "or_empty x = (case x of None \<Rightarrow> [] | Some t \<Rightarrow> t)"

definition run_file_and_capture ::
  "(string \<Rightarrow> rat \<Rightarrow> process_outcome) \<Rightarrow> string \<Rightarrow> rat \<Rightarrow> bool \<times> string" where
  "run_file_and_capture os py_code timeout =
     (case os py_code timeout of
        Completed returncode out err \<Rightarrow>
          (let output = or_empty out @ or_empty err
           in if returncode = 0 \<and> contains ''__RESULT__'' output then (True, output)
              else (False, output))
      | RaisedTimeoutExpired \<Rightarrow> (False, ''TimeoutExpired'')
      | RaisedException trace \<Rightarrow> (False, trace))"

section \<open>Reference predicates and sample environments\<close>

text \<open>
  The shape the classifier is said to accept: at least one case, whose input is a
  two-element sequence whose first element is a non-empty sequence that starts with a
  string.
\<close>

definition claimed_object_shaped :: "(pyval \<times> pyval) list \<Rightarrow> bool" where
  "claimed_object_shaped test_cases =
     (case test_cases of
        [] \<Rightarrow> False
      | c # _ \<Rightarrow>
          is_list_or_tuple (fst c) \<and> length (list_of (fst c)) = 2 \<and>
          is_list_or_tuple (hd (list_of (fst c))) \<and>
          list_of (hd (list_of (fst c))) \<noteq> [] \<and>
          is_str (hd (list_of (hd (list_of (fst c))))))"

text \<open>
  A line of the exact form \<^verbatim>\<open>__RESULT__:<passed>/<total>\<close>, both numbers written in
  decimal digits, among the lines of an output.
\<close>

fun split_lines :: "string \<Rightarrow> string list" where
  "split_lines [] = [[]]"
| "split_lines (c # cs) =
     (if c = CHR 0x0A then [] # split_lines cs
      else (case split_lines cs of [] \<Rightarrow> [[c]] | l # ls \<Rightarrow> (c # l) # ls))"

definition is_digits :: "string \<Rightarrow> bool" where
  "is_digits s = (s \<noteq> [] \<and> list_all (\<lambda>c. c \<in> set ''0123456789'') s)"

definition is_result_line :: "string \<Rightarrow> bool" where
  "is_result_line l =
     (starts_with ''__RESULT__:'' l \<and>
      (let r = drop 11 l;
           p = takeWhile (\<lambda>c. c \<noteq> CHR ''/'') r;
           t = dropWhile (\<lambda>c. c \<noteq> CHR ''/'') r
       in is_digits p \<and> t \<noteq> [] \<and> is_digits (tl t)))"

definition has_result_line :: "string \<Rightarrow> bool" where
  "has_result_line output = list_ex is_result_line (split_lines output)"

text \<open>
  Two behaviours of the operating system: a child that exits with status zero after
  printing the bare marker, and one that prints the result line of a passing run.
\<close>

definition marker_only_os :: "string \<Rightarrow> rat \<Rightarrow> process_outcome" where
  "marker_only_os py_code timeout = Completed 0 (Some ''__RESULT__'') (Some [])"

definition passing_os :: "string \<Rightarrow> rat \<Rightarrow> process_outcome" where
  "passing_os py_code timeout = Completed 0 (Some ''__RESULT__:1/1\<newline>'') (Some [])"


text \<open>
  A finite \<open>pyfloat\<close> stands for a binary64 number when rounding leaves it unchanged.
\<close>

definition valid_float :: "pyfloat \<Rightarrow> bool" where
  "valid_float f = (case f of Finite q \<Rightarrow> round_double q = Finite q | _ \<Rightarrow> True)"

fun valid_number :: "pynum \<Rightarrow> bool" where
  "valid_number (NInt i) = True"
| "valid_number (NFloat f) = valid_float f"


text \<open>
  The floats that are NaN, and the values in which the keys of every dict and the
  elements of every set are pairwise different (neither one object nor \<^verbatim>\<open>==\<close>), as they
  are in every dict and set that Python builds.
\<close>

fun is_nan :: "pyval \<Rightarrow> bool" where
  "is_nan (VFloat (NaN i)) = True"
| "is_nan _ = False"

fun pairwise_unequal :: "pyval list \<Rightarrow> bool" where
  "pairwise_unequal [] = True"
| "pairwise_unequal (x # xs) =
     (list_all (\<lambda>y. \<not> py_eq_or_is x y \<and> \<not> py_eq_or_is y x) xs \<and> pairwise_unequal xs)"

fun well_formed :: "pyval \<Rightarrow> bool" where
  "well_formed (VList xs) = list_all well_formed xs"
| "well_formed (VTuple xs) = list_all well_formed xs"
| "well_formed (VDict d) =
     (list_all (\<lambda>kv. well_formed (fst kv) \<and> well_formed (snd kv)) d \<and>
      pairwise_unequal (map fst d))"
| "well_formed (VSet xs) = (list_all well_formed xs \<and> pairwise_unequal xs)"
| "well_formed _ = True"

text \<open>
  The values \<^verbatim>\<open>json.loads\<close> builds: \<^verbatim>\<open>None\<close>, booleans, numbers, strings, lists, and
  dicts whose keys are strings, no key twice.
\<close>

fun is_json :: "pyval \<Rightarrow> bool" where
  "is_json (VList xs) = list_all is_json xs"
| "is_json (VDict d) =
     (list_all (\<lambda>kv. is_str (fst kv) \<and> is_json (snd kv)) d \<and> distinct (map fst d))"
| "is_json (VTuple xs) = False"
| "is_json (VSet xs) = False"
| "is_json _ = True"






definition no_data_names :: global_namespace where
  "no_data_names = \<lparr>data_names = (\<lambda>name. None), fresh_nan = 0\<rparr>"


definition accepting_class :: "unit candidate_class" where
  "accepting_class =
     \<lparr>construct = (\<lambda>args s. Inr s), invoke = (\<lambda>name args s. Inr (VNone, s)),
      namespace = no_data_names\<rparr>"




section \<open>Auxiliary facts\<close>

subsection \<open>Substrings and lines\<close>

lemma starts_with_iff: "starts_with n h \<longleftrightarrow> (\<exists>q. h = n @ q)"
  by (induction n h rule: starts_with.induct) auto

lemma contains_iff: "contains n h \<longleftrightarrow> (\<exists>p q. h = p @ n @ q)"
proof (induction h)
  case Nil
  then show ?case by auto
next
  case (Cons c cs)
  show ?case
  proof
    assume "contains n (c # cs)"
    then consider "starts_with n (c # cs)" | "contains n cs" by auto
    then show "\<exists>p q. c # cs = p @ n @ q"
    proof cases
      case 1
      then obtain q where "c # cs = n @ q" by (auto simp: starts_with_iff)
      then have "c # cs = [] @ n @ q" by simp
      then show ?thesis by blast
    next
      case 2
      with Cons obtain p q where "cs = p @ n @ q" by auto
      then have "c # cs = (c # p) @ n @ q" by simp
      then show ?thesis by blast
    qed
  next
    assume "\<exists>p q. c # cs = p @ n @ q"
    then obtain p q where pq: "c # cs = p @ n @ q" by blast
    show "contains n (c # cs)"
    proof (cases p)
      case Nil
      with pq have "starts_with n (c # cs)" by (auto simp: starts_with_iff)
      then show ?thesis by simp
    next
      case (Cons d p')
      with pq have "cs = p' @ n @ q" by simp
      with Cons.IH have "contains n cs" by blast
      then show ?thesis by simp
    qed
  qed
qed

lemma split_lines_hd: "split_lines s = l # ls \<Longrightarrow> \<exists>q. s = l @ q"
proof (induction s arbitrary: l ls)
  case Nil
  then show ?case by auto
next
  case (Cons c cs)
  show ?case
  proof (cases "c = CHR 0x0A")
    case True
    with Cons.prems have "l = []" by simp
    then show ?thesis by simp
  next
    case False
    show ?thesis
    proof (cases "split_lines cs")
      case Nil
      with False Cons.prems have "l = [c]" by simp
      then show ?thesis by simp
    next
      case (Cons l0 ls0)
      with False Cons.prems have l: "l = c # l0" by simp
      from Cons Cons.IH obtain q where "cs = l0 @ q" by blast
      with l show ?thesis by simp
    qed
  qed
qed

lemma split_lines_part: "l \<in> set (split_lines s) \<Longrightarrow> \<exists>p q. s = p @ l @ q"
proof (induction s arbitrary: l)
  case Nil
  then show ?case by auto
next
  case (Cons c cs)
  have later: "\<exists>p q. c # cs = p @ l @ q" if "l \<in> set (split_lines cs)"
  proof -
    from that Cons.IH obtain p q where "cs = p @ l @ q" by blast
    then have "c # cs = (c # p) @ l @ q" by simp
    then show ?thesis by blast
  qed
  show ?case
  proof (cases "c = CHR 0x0A")
    case True
    with Cons.prems consider "l = []" | "l \<in> set (split_lines cs)" by auto
    then show ?thesis
    proof cases
      case 1
      then have "c # cs = [] @ l @ (c # cs)" by simp
      then show ?thesis by blast
    next
      case 2
      then show ?thesis by (rule later)
    qed
  next
    case False
    show ?thesis
    proof (cases "split_lines cs")
      case Nil
      with False Cons.prems have "l = [c]" by simp
      then have "c # cs = [] @ l @ cs" by simp
      then show ?thesis by blast
    next
      case (Cons l0 ls)
      with False Cons.prems consider "l = c # l0" | "l \<in> set ls" by auto
      then show ?thesis
      proof cases
        case 1
        from Cons obtain q where "cs = l0 @ q" using split_lines_hd by blast
        with 1 have "c # cs = [] @ l @ q" by simp
        then show ?thesis by blast
      next
        case 2
        with Cons have "l \<in> set (split_lines cs)" by simp
        then show ?thesis by (rule later)
      qed
    qed
  qed
qed

lemma result_line_marker: "has_result_line output \<Longrightarrow> contains ''__RESULT__'' output"
proof -
  assume "has_result_line output"
  then obtain l where l: "l \<in> set (split_lines output)" "is_result_line l"
    by (auto simp: has_result_line_def list_ex_iff)
  from l(2) obtain r where "l = ''__RESULT__:'' @ r"
    unfolding is_result_line_def starts_with_iff by blast
  then have r: "l = ''__RESULT__'' @ (CHR '':'' # r)" by simp
  from l(1) obtain p q where "output = p @ l @ q" using split_lines_part by blast
  with r have "output = p @ ''__RESULT__'' @ ((CHR '':'' # r) @ q)" by simp
  then show ?thesis unfolding contains_iff by blast
qed

subsection \<open>Shapes of values\<close>

lemma length_two: "length xs = 2 \<longleftrightarrow> (\<exists>a b. xs = [a, b])"
  by (cases xs; cases "tl xs") auto

lemma is_list_iff: "is_list v \<longleftrightarrow> (\<exists>xs. v = VList xs)"
  by (cases v) auto

lemma is_str_iff: "is_str v \<longleftrightarrow> (\<exists>s. v = VStr s)"
  by (cases v) auto


subsection \<open>Evaluating binary64 rounding\<close>

lemma floor_rat_numeral: "\<lfloor>numeral a / numeral b :: rat\<rfloor> = numeral a div numeral b"
  using floor_divide_of_int_eq [of "numeral a" "numeral b", where ?'a = rat] by simp

lemma ceiling_rat_numeral: "\<lceil>numeral a / numeral b :: rat\<rceil> = - ((- numeral a) div numeral b)"
  using ceiling_divide_eq_div [of "numeral a" "numeral b", where ?'a = rat] by simp

lemmas rd_eval = floor_log2_def compute_bitlen pow2_def round_half_even_def Let_def
  floor_rat_numeral ceiling_rat_numeral

lemma round_double_finite:
  assumes "q \<noteq> 0" and "floor_log2 \<bar>q\<bar> = k"
    and "round_half_even (\<bar>q\<bar> / pow2 (max k (- 1022) - 52)) = m"
    and "of_int m * pow2 (max k (- 1022) - 52) = r" and "r < pow2 1024"
  shows "round_double q = Finite (if 0 < q then r else - r)"
  unfolding round_double_def Let_def assms(2) assms(3) assms(4) using assms(1,5) by simp

lemma round_double_overflow:
  assumes "q \<noteq> 0" and "floor_log2 \<bar>q\<bar> = k"
    and "round_half_even (\<bar>q\<bar> / pow2 (max k (- 1022) - 52)) = m"
    and "pow2 1024 \<le> of_int m * pow2 (max k (- 1022) - 52)"
  shows "round_double q = (if 0 < q then PosInf else NegInf)"
  unfolding round_double_def Let_def assms(2) assms(3) using assms(1,4) by simp

lemma tolerance_value: "float_literal (1 / 1000000000) = Finite (4835703278458517 / 4835703278458516698824704)"
  unfolding float_literal_def
  by (subst round_double_finite [where k = "- 30" and m = 4835703278458517
        and r = "4835703278458517 / 2 ^ 82"]) (simp_all add: rd_eval)

lemma literal_a: "float_literal (30000000001 / 10000000000) = Finite (1688849860320231 / 562949953421312)"
  unfolding float_literal_def
  by (subst round_double_finite [where k = 1 and m = 6755399441280924
        and r = "6755399441280924 / 2 ^ 51"]) (simp_all add: rd_eval)

lemma literal_b: "float_literal (31 / 10) = Finite (6980579422424269 / 2251799813685248)"
  unfolding float_literal_def
  by (subst round_double_finite [where k = 1 and m = 6980579422424269
        and r = "6980579422424269 / 2 ^ 51"]) (simp_all add: rd_eval)

lemma round_double_3: "round_double 3 = Finite 3"
  by (subst round_double_finite [where k = 1 and m = "3 * 2 ^ 51" and r = 3]) (simp_all add: rd_eval)

lemma sub_a: "round_double (- (56295 / 562949953421312)) = Finite (- (56295 / 562949953421312))"
  by (subst round_double_finite [where k = "- 34" and m = "225180 * 2 ^ 35" and r = "225180 / 2 ^ 51"])
     (simp_all add: rd_eval)

lemma sub_b: "round_double (- (225179981368525 / 2251799813685248)) = Finite (- (225179981368525 / 2251799813685248))"
  by (subst round_double_finite [where k = "- 4" and m = "225179981368525 * 2 ^ 5" and r = "225179981368525 / 2 ^ 51"])
     (simp_all add: rd_eval)

lemma round_double_big: "round_double (2 ^ 1024) = PosInf"
  by (subst round_double_overflow [where k = 1024 and m = "2 ^ 52"]) (simp_all add: rd_eval)

lemma round_double_0: "round_double 0 = Finite 0"
  by (simp add: round_double_def)

lemma zero_below_tolerance: "float_lt (Finite 0) (float_literal (1 / 1000000000))"
  by (simp add: tolerance_value)

lemma sub_tolerance:
  "round_double (- (4835703278458517 / 4835703278458516698824704)) =
     Finite (- (4835703278458517 / 4835703278458516698824704))"
  by (subst round_double_finite [where k = "- 30" and m = 4835703278458517
        and r = "4835703278458517 / 2 ^ 82"]) (simp_all add: rd_eval)

lemma sub_below_tolerance:
  "round_double (- (1208925819614629 / 1208925819614629174706176)) =
     Finite (- (1208925819614629 / 1208925819614629174706176))"
  by (subst round_double_finite [where k = "- 30" and m = 4835703278458516
        and r = "4835703278458516 / 2 ^ 82"]) (simp_all add: rd_eval)

subsection \<open>The rules of the equivalence engine\<close>

lemma same_nan_iff: "same_nan a b \<longleftrightarrow> is_nan a \<and> b = a"
  by (cases a rule: is_nan.cases) auto

lemma all_or_first_failure_True_iff:
  "all_or_first_failure f xs = Inr True \<longleftrightarrow> (\<forall>x \<in> set xs. f x = Inr True)"
  by (induction xs) (auto split: sum.splits)

lemma is_list_or_tuple_iff:
  "is_list_or_tuple v \<longleftrightarrow> (\<exists>xs. v = VList xs \<or> v = VTuple xs)"
  by (cases v) auto

lemma results_equivalent_py_eq: "py_eq a b \<Longrightarrow> results_equivalent a b = Inr True"
  by (simp add: results_equivalent.simps)

lemma results_equivalent_seq:
  assumes "is_list_or_tuple a" "is_list_or_tuple b"
  shows "results_equivalent a b = Inr (list_all2 py_eq_or_is (list_of a) (list_of b))"
proof (cases "py_eq a b")
  case True
  with assms have "list_all2 py_eq_or_is (list_of a) (list_of b)"
    by (auto simp: is_list_or_tuple_iff)
  with True show ?thesis by (simp add: results_equivalent_py_eq)
next
  case False
  with assms show ?thesis
    by (subst results_equivalent.simps) (auto simp: is_list_or_tuple_iff)
qed

lemma abs_diff_of_equal_numbers:
  assumes "num_eq x y" "valid_number x" "valid_number y"
    and "\<not> (x = NFloat PosInf \<and> y = NFloat PosInf)" "\<not> (x = NFloat NegInf \<and> y = NFloat NegInf)"
  shows "abs_diff_below_tolerance x y = Inr True"
proof (cases x)
  case (NInt i)
  note x = this
  show ?thesis
  proof (cases y)
    case (NInt j)
    with x assms(1) show ?thesis
      by (simp add: abs_diff_below_tolerance_def zero_below_tolerance)
  next
    case (NFloat g)
    with x assms(1) have g: "g = Finite (of_int i)" by (cases g) auto
    with NFloat assms(3) have "round_double (of_int i) = Finite (of_int i)"
      by (simp add: valid_float_def)
    with x NFloat g show ?thesis
      by (simp add: abs_diff_below_tolerance_def int_to_float_def round_double_0 zero_below_tolerance)
  qed
next
  case (NFloat f)
  note x = this
  show ?thesis
  proof (cases y)
    case (NInt j)
    with x assms(1) have f: "f = Finite (of_int j)" by (cases f) auto
    with x assms(2) have "round_double (of_int j) = Finite (of_int j)"
      by (simp add: valid_float_def)
    with x NInt f show ?thesis
      by (simp add: abs_diff_below_tolerance_def int_to_float_def round_double_0 zero_below_tolerance)
  next
    case (NFloat g)
    with x assms(1,4,5) obtain q where "f = Finite q" "g = Finite q"
      by (cases f; cases g) auto
    with x NFloat show ?thesis
      by (simp add: abs_diff_below_tolerance_def round_double_0 zero_below_tolerance)
  qed
qed

lemma abs_diff_explicit:
  "abs_diff_below_tolerance x y =
     (case num_sub x y of
        Inl e \<Rightarrow> Inl e
      | Inr (NInt k) \<Rightarrow> Inr (\<bar>of_int k\<bar> < (4835703278458517 / 2 ^ 82 :: rat))
      | Inr (NFloat (Finite d)) \<Rightarrow> Inr (\<bar>d\<bar> < 4835703278458517 / 2 ^ 82)
      | Inr (NFloat _) \<Rightarrow> Inr False)"
  by (simp add: abs_diff_below_tolerance_def tolerance_value
      split: sum.splits pynum.splits pyfloat.splits)

lemma py_eq_numbers: "as_number a = Some x \<Longrightarrow> as_number b = Some y \<Longrightarrow> py_eq a b = num_eq x y"
  by (cases a) auto

lemma results_equivalent_num:
  assumes "as_number a = Some x" "as_number b = Some y"
  shows "results_equivalent a b = (if py_eq a b then Inr True else abs_diff_below_tolerance x y)"
proof -
  from assms have "\<not> is_list_or_tuple a" "\<not> is_dict a" "\<not> is_set a" "\<not> is_str a" "a \<noteq> VNone"
    by (cases a; simp)+
  with assms show ?thesis
    by (subst results_equivalent.simps) (simp add: is_number_def)
qed

lemma results_equivalent_dict:
  "results_equivalent (VDict d) (VDict d') =
     (if py_eq (VDict d) (VDict d') then Inr True
      else if \<not> py_set_eq (map fst d) (map fst d') then Inr False
      else all_or_first_failure
             (\<lambda>kv. case py_getitem d' (fst kv) of
                     Inl e \<Rightarrow> Inl e
                   | Inr v' \<Rightarrow> results_equivalent (snd kv) v')
             d)"
  by (subst results_equivalent.simps) (simp add: dict_keys_def)

lemma py_eq_dict_items:
  assumes "py_eq (VDict d) (VDict d')" "kv \<in> set d"
  shows "\<exists>kv'. kv' \<in> set d' \<and> py_eq_or_is (fst kv) (fst kv') \<and>
               py_getitem d' (fst kv) = Inr (snd kv') \<and> py_eq_or_is (snd kv) (snd kv')"
proof -
  from assms have "case find (\<lambda>kv'. py_eq_or_is (fst kv) (fst kv')) d' of
      None \<Rightarrow> False | Some kv' \<Rightarrow> py_eq_or_is (snd kv) (snd kv')"
    by (auto simp: list_all_iff)
  then obtain kv' where f: "find (\<lambda>kv'. py_eq_or_is (fst kv) (fst kv')) d' = Some kv'"
    and v: "py_eq_or_is (snd kv) (snd kv')"
    by (auto split: option.splits)
  from f have "kv' \<in> set d'" "py_eq_or_is (fst kv) (fst kv')"
    by (auto simp: find_Some_iff)
  with f v show ?thesis
    by (intro exI [of _ kv']) (simp add: py_getitem_def)
qed

lemma py_eq_dict_keys: "py_eq (VDict d) (VDict d') \<Longrightarrow> py_set_eq (map fst d) (map fst d')"
proof -
  assume eq: "py_eq (VDict d) (VDict d')"
  then have "length d = length d'" by simp
  moreover have "list_ex (py_eq_or_is (fst kv)) (map fst d')" if "kv \<in> set d" for kv
  proof -
    from py_eq_dict_items [OF eq that] obtain kv' where "kv' \<in> set d'" "py_eq_or_is (fst kv) (fst kv')"
      by blast
    then have "fst kv' \<in> set (map fst d')" "py_eq_or_is (fst kv) (fst kv')" by auto
    then show ?thesis unfolding list_ex_iff by blast
  qed
  ultimately show ?thesis
    by (auto simp: py_set_eq_def list_all_iff)
qed

lemma results_equivalent_dict_True_iff:
  "results_equivalent (VDict d) (VDict d') = Inr True \<longleftrightarrow>
     py_eq (VDict d) (VDict d') \<or>
     py_set_eq (map fst d) (map fst d') \<and>
     (\<forall>kv \<in> set d. \<exists>v'. py_getitem d' (fst kv) = Inr v' \<and>
                            results_equivalent (snd kv) v' = Inr True)"
proof (cases "py_eq (VDict d) (VDict d')")
  case True
  then show ?thesis by (simp add: results_equivalent_py_eq)
next
  case False
  have "(case py_getitem d' k of Inl e \<Rightarrow> Inl e | Inr v' \<Rightarrow> results_equivalent v v') = Inr True \<longleftrightarrow>
        (\<exists>v'. py_getitem d' k = Inr v' \<and> results_equivalent v v' = Inr True)" for k v
    by (cases "py_getitem d' k") auto
  with False show ?thesis
    by (simp add: results_equivalent_dict all_or_first_failure_True_iff del: py_eq_dict)
qed

lemma py_eq_dict_values:
  assumes "py_eq (VDict d) (VDict d')"
    "\<forall>kv \<in> set d. \<not> (is_nan (snd kv) \<and> py_getitem d' (fst kv) = Inr (snd kv))"
  shows "py_set_eq (map fst d) (map fst d') \<and>
     (\<forall>kv \<in> set d. \<exists>v'. py_getitem d' (fst kv) = Inr v' \<and>
                            results_equivalent (snd kv) v' = Inr True)"
proof -
  have "\<exists>v'. py_getitem d' (fst kv) = Inr v' \<and> results_equivalent (snd kv) v' = Inr True"
    if "kv \<in> set d" for kv
  proof -
    from py_eq_dict_items [OF assms(1) that] obtain kv'
      where "kv' \<in> set d'" and g: "py_getitem d' (fst kv) = Inr (snd kv')"
        and e: "py_eq_or_is (snd kv) (snd kv')"
      by blast
    have "\<not> same_nan (snd kv) (snd kv')"
    proof
      assume "same_nan (snd kv) (snd kv')"
      then have "is_nan (snd kv)" "snd kv' = snd kv" by (simp_all add: same_nan_iff)
      with g assms(2) that show False by auto
    qed
    with e have "py_eq (snd kv) (snd kv')" by (simp add: py_eq_or_is_def)
    with g show ?thesis
      by (auto intro: results_equivalent_py_eq)
  qed
  with assms(1) show ?thesis
    by (simp add: py_eq_dict_keys del: py_eq_dict)
qed

lemma equivalent_3_literal_a:
  "results_equivalent (VInt 3) (VFloat (float_literal (30000000001 / 10000000000))) = Inr True"
  by (simp add: results_equivalent_num literal_a abs_diff_below_tolerance_def int_to_float_def
      round_double_3 sub_a tolerance_value)

lemma harness_copies_agree:
  "function_harness_results_equivalent a b = results_equivalent a b \<and>
   class_harness_results_equivalent a b = results_equivalent a b"
proof (induction a b rule: results_equivalent.induct)
  case (1 result expected)
  let ?host = "\<lambda>kv. case py_getitem (dict_items expected) (fst kv) of
        Inl e \<Rightarrow> Inl e | Inr v' \<Rightarrow> results_equivalent (snd kv) v'"
  let ?fn = "\<lambda>kv. case py_getitem (dict_items expected) (fst kv) of
        Inl e \<Rightarrow> Inl e | Inr v' \<Rightarrow> function_harness_results_equivalent (snd kv) v'"
  let ?cls = "\<lambda>kv. case py_getitem (dict_items expected) (fst kv) of
        Inl e \<Rightarrow> Inl e | Inr v' \<Rightarrow> class_harness_results_equivalent (snd kv) v'"
  have sets: "\<not> is_str result \<and> \<not> is_number result" if "is_set result"
    using that by (cases result) (auto simp: is_number_def)
  have dicts: "\<not> is_list_or_tuple result" if "is_dict result"
    using that by (cases result) auto
  show ?case
  proof (cases "\<not> py_eq result expected \<and> \<not> (result = VNone \<and> expected = VNone) \<and>
      \<not> (is_list_or_tuple result \<and> is_list_or_tuple expected) \<and>
      (is_dict result \<and> is_dict expected) \<and> py_set_eq (dict_keys result) (dict_keys expected)")
    case True
    then have ih: "function_harness_results_equivalent (snd kv) v' = results_equivalent (snd kv) v' \<and>
        class_harness_results_equivalent (snd kv) v' = results_equivalent (snd kv) v'"
      if "kv \<in> set (dict_items result)" "py_getitem (dict_items expected) (fst kv) = Inr v'" for kv v'
      using "1.IH" [of kv v'] that by simp
    have "?fn kv = ?host kv \<and> ?cls kv = ?host kv" if "kv \<in> set (dict_items result)" for kv
      using ih [OF that] by (cases "py_getitem (dict_items expected) (fst kv)") auto
    then have "all_or_first_failure ?fn (dict_items result) = all_or_first_failure ?host (dict_items result)"
      and "all_or_first_failure ?cls (dict_items result) = all_or_first_failure ?host (dict_items result)"
      by (auto intro: all_or_first_failure_cong)
    with True show ?thesis
      by (subst function_harness_results_equivalent.simps, subst results_equivalent.simps,
          subst class_harness_results_equivalent.simps, subst results_equivalent.simps)
         (auto dest: dicts)
  next
    case False
    then show ?thesis
      by (subst function_harness_results_equivalent.simps, subst results_equivalent.simps,
          subst class_harness_results_equivalent.simps, subst results_equivalent.simps)
         (auto dest: sets)
  qed
qed


subsection \<open>Reflexivity of \<^verbatim>\<open>==\<close>\<close>

lemma py_eq_or_is_float: "py_eq_or_is (VFloat f) (VFloat f)"
  by (cases f) (simp_all add: py_eq_or_is_def)

lemma find_own_item:
  assumes "pairwise_unequal (map fst d)" "kv \<in> set d" "py_eq_or_is (fst kv) (fst kv)"
  shows "find (\<lambda>kv'. py_eq_or_is (fst kv) (fst kv')) d = Some kv"
  using assms
proof (induction d)
  case Nil
  then show ?case by simp
next
  case (Cons x xs)
  show ?case
  proof (cases "kv = x")
    case True
    with Cons.prems show ?thesis by simp
  next
    case False
    with Cons.prems have in_xs: "kv \<in> set xs" by simp
    with Cons.prems have "\<not> py_eq_or_is (fst kv) (fst x)"
      by (auto simp: list_all_iff)
    with Cons in_xs show ?thesis by simp
  qed
qed

lemma py_eq_or_is_refl: "well_formed v \<Longrightarrow> py_eq_or_is v v"
proof (induction v)
  case (VFloat f)
  show ?case by (rule py_eq_or_is_float)
next
  case (VList xs)
  then have "list_all2 py_eq_or_is xs xs" by (auto simp: list_all_iff list_all2_same)
  then show ?case by (simp add: py_eq_or_is_def)
next
  case (VTuple xs)
  then have "list_all2 py_eq_or_is xs xs" by (auto simp: list_all_iff list_all2_same)
  then show ?case by (simp add: py_eq_or_is_def)
next
  case (VDict d)
  have keys: "py_eq_or_is (fst kv) (fst kv)" and vals: "py_eq_or_is (snd kv) (snd kv)"
    if "kv \<in> set d" for kv
  proof -
    obtain k v where kv: "kv = (k, v)" by (cases kv)
    from that kv VDict.prems have "well_formed k" "well_formed v"
      by (auto simp: list_all_iff)
    with that kv show "py_eq_or_is (fst kv) (fst kv)" and "py_eq_or_is (snd kv) (snd kv)"
      using VDict.IH(1) [of kv k] VDict.IH(2) [of kv v] by simp_all
  qed
  from VDict.prems have "pairwise_unequal (map fst d)" by simp
  then have "find (\<lambda>kv'. py_eq_or_is (fst kv) (fst kv')) d = Some kv" if "kv \<in> set d" for kv
    using that keys by (intro find_own_item)
  with vals show ?case by (simp add: list_all_iff py_eq_or_is_def)
next
  case (VSet xs)
  then have "list_all (\<lambda>x. list_ex (py_eq_or_is x) xs) xs"
    by (auto simp: list_all_iff list_ex_iff)
  then show ?case by (simp add: py_eq_or_is_def)
qed (simp_all add: py_eq_or_is_def)

lemma py_eq_refl: "well_formed v \<Longrightarrow> \<not> is_nan v \<Longrightarrow> py_eq v v"
  using py_eq_or_is_refl [of v] by (simp add: py_eq_or_is_def same_nan_iff)

subsection \<open>Symmetry of the arithmetic\<close>

lemma float_eq_sym: "float_eq f g = float_eq g f"
  by (cases f; cases g) auto

lemma num_eq_sym: "num_eq x y = num_eq y x"
  by (cases x; cases y) (auto simp: float_eq_sym)

lemma round_double_minus: "round_double (- q) = float_neg (round_double q)"
  by (simp add: round_double_def Let_def)

lemma float_sub_swap: "float_sub f g = float_neg (float_sub g f)"
proof (cases f)
  case (Finite p)
  then show ?thesis
    using round_double_minus [of "p - q" for q] by (cases g) (simp_all add: round_double_minus [symmetric])
qed (cases g; simp)+

lemma float_abs_neg: "float_abs (float_neg f) = float_abs f"
  by (cases f) auto

lemma abs_diff_sym: "abs_diff_below_tolerance x y = abs_diff_below_tolerance y x"
proof -
  have ff: "float_abs (float_sub f g) = float_abs (float_sub g f)" for f g
    using float_sub_swap [of f g] by (simp add: float_abs_neg)
  show ?thesis
  proof (cases x)
    case (NInt i)
    note x = this
    show ?thesis
    proof (cases y)
      case (NInt j)
      have "\<bar>i - j\<bar> = \<bar>j - i\<bar>" by simp
      with x NInt show ?thesis by (simp add: abs_diff_below_tolerance_def)
    next
      case (NFloat g)
      with x show ?thesis
        by (cases "int_to_float i") (simp_all add: abs_diff_below_tolerance_def ff)
    qed
  next
    case (NFloat f)
    note x = this
    show ?thesis
    proof (cases y)
      case (NInt j)
      with x show ?thesis
        by (cases "int_to_float j") (simp_all add: abs_diff_below_tolerance_def ff)
    next
      case (NFloat g)
      with x show ?thesis by (simp add: abs_diff_below_tolerance_def ff)
    qed
  qed
qed

subsection \<open>Dicts with string keys\<close>

lemma py_eq_str_key: "is_str k \<Longrightarrow> py_eq_or_is k b = (b = k)"
  by (cases b) (auto simp: is_str_iff py_eq_or_is_def)

lemma same_nan_sym: "same_nan a b = same_nan b a"
  by (auto simp: same_nan_iff)

lemma find_by_key:
  "distinct (map fst d) \<Longrightarrow> find (\<lambda>kv'. fst kv' = k) d = Some kv \<longleftrightarrow> kv \<in> set d \<and> fst kv = k"
proof (induction d)
  case Nil
  then show ?case by simp
next
  case (Cons x xs)
  then show ?case by (cases "fst x = k") (auto simp: rev_image_eqI)
qed

lemma find_by_key_None:
  "find (\<lambda>kv'. fst kv' = k) d = None \<longleftrightarrow> k \<notin> fst ` set d"
  by (induction d) auto

lemma json_dict_rel:
  assumes "\<forall>kv \<in> set d. is_str (fst kv)" "distinct (map fst d')"
  shows "list_all
           (\<lambda>kv. case find (\<lambda>kv'. py_eq_or_is (fst kv) (fst kv')) d' of
                   None \<Rightarrow> False
                 | Some kv' \<Rightarrow> R (snd kv) (snd kv')) d
         \<longleftrightarrow> (\<forall>kv \<in> set d. \<exists>kv' \<in> set d'. fst kv' = fst kv \<and> R (snd kv) (snd kv'))"
proof -
  have "(case find (\<lambda>kv'. py_eq_or_is (fst kv) (fst kv')) d' of
           None \<Rightarrow> False | Some kv' \<Rightarrow> R (snd kv) (snd kv'))
        \<longleftrightarrow> (\<exists>kv' \<in> set d'. fst kv' = fst kv \<and> R (snd kv) (snd kv'))"
    if "kv \<in> set d" for kv
  proof -
    from that assms(1) have "is_str (fst kv)" by blast
    then have eq: "find (\<lambda>kv'. py_eq_or_is (fst kv) (fst kv')) d' = find (\<lambda>kv'. fst kv' = fst kv) d'"
      by (simp add: py_eq_str_key)
    show ?thesis
    proof (cases "find (\<lambda>kv'. fst kv' = fst kv) d'")
      case None
      then have "fst kv \<notin> fst ` set d'" by (simp add: find_by_key_None)
      then have "\<not> (\<exists>kv' \<in> set d'. fst kv' = fst kv \<and> R (snd kv) (snd kv'))" by force
      with None eq show ?thesis by simp
    next
      case (Some kv')
      have one: "kv'' \<in> set d' \<and> fst kv'' = fst kv \<longleftrightarrow> kv'' = kv'" for kv''
        unfolding find_by_key [OF assms(2), symmetric] Some by auto
      have "(\<exists>kv'' \<in> set d'. fst kv'' = fst kv \<and> R (snd kv) (snd kv'')) \<longleftrightarrow> R (snd kv) (snd kv')"
      proof
        assume "\<exists>kv'' \<in> set d'. fst kv'' = fst kv \<and> R (snd kv) (snd kv'')"
        then obtain kv'' where k: "kv'' \<in> set d'" "fst kv'' = fst kv" "R (snd kv) (snd kv'')"
          by blast
        from k(1,2) one [of kv''] have "kv'' = kv'" by simp
        with k(3) show "R (snd kv) (snd kv')" by simp
      next
        assume r: "R (snd kv) (snd kv')"
        from one [of kv'] have "kv' \<in> set d'" "fst kv' = fst kv" by simp_all
        with r show "\<exists>kv'' \<in> set d'. fst kv'' = fst kv \<and> R (snd kv) (snd kv'')" by blast
      qed
      with Some eq show ?thesis by simp
    qed
  qed
  then show ?thesis by (simp add: list_all_iff)
qed

lemma json_dict_rel_flip:
  assumes len: "length d = length d'" and dist: "distinct (map fst d)" "distinct (map fst d')"
    and fwd: "\<forall>kv \<in> set d. \<exists>kv' \<in> set d'. fst kv' = fst kv \<and> R (snd kv) (snd kv')"
    and flip: "\<And>kv kv'. kv \<in> set d \<Longrightarrow> kv' \<in> set d' \<Longrightarrow> R (snd kv) (snd kv') \<Longrightarrow> Q (snd kv') (snd kv)"
  shows "\<forall>kv' \<in> set d'. \<exists>kv \<in> set d. fst kv = fst kv' \<and> Q (snd kv') (snd kv)"
proof
  fix kv' assume kv': "kv' \<in> set d'"
  from fwd have sub: "fst ` set d \<subseteq> fst ` set d'" by force
  have "card (fst ` set d) = length d" "card (fst ` set d') = length d'"
    using dist distinct_card [of "map fst d"] distinct_card [of "map fst d'"] by simp_all
  with len sub have "fst ` set d = fst ` set d'"
    by (intro card_subset_eq) simp_all
  with kv' obtain kv where kv: "kv \<in> set d" "fst kv = fst kv'" by force
  with fwd obtain kv'' where kv'': "kv'' \<in> set d'" "fst kv'' = fst kv" "R (snd kv) (snd kv'')"
    by blast
  from dist(2) have "inj_on fst (set d')" by (simp add: distinct_map)
  with kv' kv'' kv(2) have "kv'' = kv'" by (auto dest: inj_onD)
  with kv kv'' flip [of kv kv'] kv' show "\<exists>kv \<in> set d. fst kv = fst kv' \<and> Q (snd kv') (snd kv)"
    by blast
qed

lemma list_all2_flip:
  "(\<And>x y. x \<in> set xs \<Longrightarrow> y \<in> set ys \<Longrightarrow> P x y = Q y x) \<Longrightarrow>
   list_all2 P xs ys = list_all2 Q ys xs"
proof (induction xs arbitrary: ys)
  case Nil
  then show ?case by simp
next
  case (Cons x xs)
  then show ?case by (cases ys) auto
qed

lemma json_dict_facts:
  "is_json (VDict d) \<Longrightarrow> (\<forall>kv \<in> set d. is_str (fst kv)) \<and> (\<forall>kv \<in> set d. is_json (snd kv)) \<and> distinct (map fst d)"
  by (simp add: list_all_iff)

lemma py_eq_json_dict:
  assumes "is_json (VDict d)" "is_json (VDict d')"
  shows "py_eq (VDict d) (VDict d') \<longleftrightarrow>
     length d = length d' \<and>
     (\<forall>kv \<in> set d. \<exists>kv' \<in> set d'. fst kv' = fst kv \<and> py_eq_or_is (snd kv) (snd kv'))"
  using json_dict_rel [of d d' py_eq_or_is] json_dict_facts [OF assms(1)] json_dict_facts [OF assms(2)]
  by simp

lemma py_eq_number_sym:
  assumes "as_number a = Some x"
  shows "py_eq a b = py_eq b a"
proof (cases "as_number b")
  case None
  with assms show ?thesis by (cases a; cases b) simp_all
next
  case (Some y)
  with assms have "py_eq a b = num_eq x y" "py_eq b a = num_eq y x"
    by (simp_all add: py_eq_numbers)
  then show ?thesis using num_eq_sym [of x y] by simp
qed

lemma py_eq_sym_json: "is_json a \<Longrightarrow> is_json b \<Longrightarrow> py_eq a b = py_eq b a"
proof (induction a arbitrary: b)
  case VNone
  then show ?case by (cases b) auto
next
  case (VBool p)
  show ?case by (rule py_eq_number_sym) simp
next
  case (VInt i)
  show ?case by (rule py_eq_number_sym) simp
next
  case (VFloat f)
  show ?case by (rule py_eq_number_sym) simp
next
  case (VStr s)
  then show ?case by (cases b) auto
next
  case (VList xs)
  show ?case
  proof (cases b)
    case (VList ys)
    with VList.prems have j: "\<forall>x \<in> set xs. is_json x" "\<forall>y \<in> set ys. is_json y"
      by (simp_all add: list_all_iff)
    have "list_all2 py_eq_or_is xs ys = list_all2 py_eq_or_is ys xs"
    proof (rule list_all2_flip)
      show "py_eq_or_is x y = py_eq_or_is y x" if "x \<in> set xs" "y \<in> set ys" for x y
        using that j VList.IH [of x y] same_nan_sym [of x y] by (simp add: py_eq_or_is_def)
    qed
    then show ?thesis using VList by simp
  qed simp_all
next
  case (VTuple xs)
  then show ?case by simp
next
  case (VDict d)
  show ?case
  proof (cases b)
    case b: (VDict d')
    note fd = json_dict_facts [OF VDict.prems(1)]
    from VDict.prems(2) b have jd': "is_json (VDict d')" by simp
    note fd' = json_dict_facts [OF jd']
    have ih: "py_eq_or_is (snd kv) (snd kv') = py_eq_or_is (snd kv') (snd kv)"
      if "kv \<in> set d" "kv' \<in> set d'" for kv kv'
    proof -
      obtain k v where kv: "kv = (k, v)" by (cases kv)
      from that fd' have "is_json (snd kv')" by blast
      moreover from that fd have "is_json (snd kv)" by blast
      ultimately have "py_eq (snd kv) (snd kv') = py_eq (snd kv') (snd kv)"
        using VDict.IH(2) [of kv v "snd kv'"] that kv by simp
      then show ?thesis
        using same_nan_sym [of "snd kv" "snd kv'"] by (simp add: py_eq_or_is_def)
    qed
    have "py_eq (VDict d) (VDict d') = py_eq (VDict d') (VDict d)"
    proof
      assume "py_eq (VDict d) (VDict d')"
      then have l: "length d = length d'"
        and f: "\<forall>kv \<in> set d. \<exists>kv' \<in> set d'. fst kv' = fst kv \<and> py_eq_or_is (snd kv) (snd kv')"
        using py_eq_json_dict [OF VDict.prems(1) jd'] by simp_all
      have "\<forall>kv' \<in> set d'. \<exists>kv \<in> set d. fst kv = fst kv' \<and> py_eq_or_is (snd kv') (snd kv)"
      proof (rule json_dict_rel_flip [where R = py_eq_or_is, OF l _ _ f])
        show "distinct (map fst d)" using fd by simp
        show "distinct (map fst d')" using fd' by simp
        show "py_eq_or_is (snd kv') (snd kv)"
          if "kv \<in> set d" "kv' \<in> set d'" "py_eq_or_is (snd kv) (snd kv')" for kv kv'
          using ih [OF that(1,2)] that(3) by simp
      qed
      with l show "py_eq (VDict d') (VDict d)"
        using py_eq_json_dict [OF jd' VDict.prems(1)] by simp
    next
      assume "py_eq (VDict d') (VDict d)"
      then have l: "length d' = length d"
        and f: "\<forall>kv' \<in> set d'. \<exists>kv \<in> set d. fst kv = fst kv' \<and> py_eq_or_is (snd kv') (snd kv)"
        using py_eq_json_dict [OF jd' VDict.prems(1)] by simp_all
      have "\<forall>kv \<in> set d. \<exists>kv' \<in> set d'. fst kv' = fst kv \<and> py_eq_or_is (snd kv) (snd kv')"
      proof (rule json_dict_rel_flip [where R = py_eq_or_is, OF l _ _ f])
        show "distinct (map fst d')" using fd' by simp
        show "distinct (map fst d)" using fd by simp
        show "py_eq_or_is (snd kv) (snd kv')"
          if "kv' \<in> set d'" "kv \<in> set d" "py_eq_or_is (snd kv') (snd kv)" for kv kv'
          using ih [OF that(2,1)] that(3) by simp
      qed
      with l show "py_eq (VDict d) (VDict d')"
        using py_eq_json_dict [OF VDict.prems(1) jd'] by simp
    qed
    with b show ?thesis by simp
  qed simp_all
next
  case (VSet xs)
  then show ?case by simp
qed

subsection \<open>Symmetry of the equivalence engine on JSON values\<close>

lemma results_equivalent_shallow_sym:
  assumes j: "is_json a" "is_json b" and nd: "\<not> (is_dict a \<and> is_dict b)"
  shows "results_equivalent a b = results_equivalent b a"
proof (cases "py_eq a b")
  case True
  with j have "py_eq b a" by (simp add: py_eq_sym_json)
  with True show ?thesis by (simp add: results_equivalent_py_eq)
next
  case False
  with j have False': "\<not> py_eq b a" by (simp add: py_eq_sym_json)
  consider (num) "is_number a \<and> is_number b"
    | (seq) "is_list_or_tuple a \<and> is_list_or_tuple b"
    | (str) "is_str a \<and> is_str b"
    | (other) "\<not> (is_number a \<and> is_number b)" "\<not> (is_list_or_tuple a \<and> is_list_or_tuple b)"
        "\<not> (is_str a \<and> is_str b)"
    by blast
  then show ?thesis
  proof cases
    case num
    then obtain x y where "as_number a = Some x" "as_number b = Some y"
      by (auto simp: is_number_def)
    with False False' show ?thesis
      using abs_diff_sym [of x y] by (simp add: results_equivalent_num)
  next
    case seq
    with j obtain xs ys where ab: "a = VList xs" "b = VList ys"
      by (cases a; cases b) auto
    have "results_equivalent a b = Inr (py_eq a b)" "results_equivalent b a = Inr (py_eq b a)"
      unfolding ab by (simp_all add: results_equivalent_seq)
    with False False' show ?thesis by simp
  next
    case str
    then obtain s t where "a = VStr s" "b = VStr t" by (auto simp: is_str_iff)
    then show ?thesis
      by (subst results_equivalent.simps [of a b], subst results_equivalent.simps [of b a]) auto
  next
    case other
    with False False' nd have "results_equivalent a b = Inr False"
      by (subst results_equivalent.simps) (cases a; cases b; simp add: is_number_def)
    moreover from other False False' nd have "results_equivalent b a = Inr False"
      by (subst results_equivalent.simps) (cases a; cases b; simp add: is_number_def)
    ultimately show ?thesis by simp
  qed
qed

lemma py_getitem_json:
  assumes "is_str k" "distinct (map fst d')"
  shows "py_getitem d' k = Inr v' \<longleftrightarrow> (\<exists>kv' \<in> set d'. fst kv' = k \<and> snd kv' = v')"
proof -
  from assms(1) have eq: "find (\<lambda>kv'. py_eq_or_is k (fst kv')) d' = find (\<lambda>kv'. fst kv' = k) d'"
    by (simp add: py_eq_str_key)
  show ?thesis
  proof (cases "find (\<lambda>kv'. fst kv' = k) d'")
    case None
    then have "k \<notin> fst ` set d'" by (simp add: find_by_key_None)
    then have "\<not> (\<exists>kv' \<in> set d'. fst kv' = k \<and> snd kv' = v')" by force
    with None eq show ?thesis by (simp add: py_getitem_def)
  next
    case (Some kv')
    have one: "kv'' \<in> set d' \<and> fst kv'' = k \<longleftrightarrow> kv'' = kv'" for kv''
      unfolding find_by_key [OF assms(2), symmetric] Some by auto
    have "(\<exists>kv'' \<in> set d'. fst kv'' = k \<and> snd kv'' = v') \<longleftrightarrow> snd kv' = v'"
    proof
      assume "\<exists>kv'' \<in> set d'. fst kv'' = k \<and> snd kv'' = v'"
      then obtain kv'' where k: "kv'' \<in> set d'" "fst kv'' = k" "snd kv'' = v'"
        by blast
      from k(1,2) one [of kv''] have "kv'' = kv'" by simp
      with k(3) show "snd kv' = v'" by simp
    next
      assume r: "snd kv' = v'"
      from one [of kv'] have "kv' \<in> set d'" "fst kv' = k" by simp_all
      with r show "\<exists>kv'' \<in> set d'. fst kv'' = k \<and> snd kv'' = v'" by blast
    qed
    with Some eq show ?thesis by (simp add: py_getitem_def)
  qed
qed

lemma py_set_eq_json_keys:
  assumes "\<forall>kv \<in> set d. is_str (fst kv)"
  shows "py_set_eq (map fst d) (map fst d') \<longleftrightarrow>
         length d = length d' \<and> (\<forall>kv \<in> set d. fst kv \<in> fst ` set d')"
proof -
  have "list_ex (py_eq_or_is (fst kv)) (map fst d') \<longleftrightarrow> fst kv \<in> fst ` set d'"
    if "kv \<in> set d" for kv
  proof -
    from that assms have "is_str (fst kv)" by blast
    then show ?thesis by (auto simp: list_ex_iff py_eq_str_key)
  qed
  then show ?thesis
    by (auto simp: py_set_eq_def list_all_iff)
qed

lemma json_dict_items:
  assumes "is_json (VDict d)" "is_json (VDict d')"
  shows "py_set_eq (map fst d) (map fst d') \<and>
     (\<forall>kv \<in> set d. \<exists>v'. py_getitem d' (fst kv) = Inr v' \<and>
                            results_equivalent (snd kv) v' = Inr True) \<longleftrightarrow>
     length d = length d' \<and>
     (\<forall>kv \<in> set d. \<exists>kv' \<in> set d'. fst kv' = fst kv \<and>
                      results_equivalent (snd kv) (snd kv') = Inr True)"
proof -
  note fd = json_dict_facts [OF assms(1)] and fd' = json_dict_facts [OF assms(2)]
  have item: "(\<exists>v'. py_getitem d' (fst kv) = Inr v' \<and> results_equivalent (snd kv) v' = Inr True)
      \<longleftrightarrow> (\<exists>kv' \<in> set d'. fst kv' = fst kv \<and> results_equivalent (snd kv) (snd kv') = Inr True)"
    if "kv \<in> set d" for kv
  proof -
    from that fd have "is_str (fst kv)" by blast
    then show ?thesis
      using fd' by (auto simp: py_getitem_json)
  qed
  have keys: "py_set_eq (map fst d) (map fst d') \<longleftrightarrow>
         length d = length d' \<and> (\<forall>kv \<in> set d. fst kv \<in> fst ` set d')"
    using fd by (intro py_set_eq_json_keys) simp
  have A: "(\<forall>kv \<in> set d. \<exists>v'. py_getitem d' (fst kv) = Inr v' \<and>
                               results_equivalent (snd kv) v' = Inr True)
      \<longleftrightarrow> (\<forall>kv \<in> set d. \<exists>kv' \<in> set d'. fst kv' = fst kv \<and>
                               results_equivalent (snd kv) (snd kv') = Inr True)"
    using item by simp
  have B: "\<forall>kv \<in> set d. fst kv \<in> fst ` set d'"
    if "\<forall>kv \<in> set d. \<exists>kv' \<in> set d'. fst kv' = fst kv \<and>
                               results_equivalent (snd kv) (snd kv') = Inr True"
    using that by force
  show ?thesis
    unfolding keys A using B by blast
qed

lemma results_equivalent_json_dict:
  assumes "is_json (VDict d)" "is_json (VDict d')"
  shows "results_equivalent (VDict d) (VDict d') = Inr True \<longleftrightarrow>
     py_eq (VDict d) (VDict d') \<or>
     length d = length d' \<and>
     (\<forall>kv \<in> set d. \<exists>kv' \<in> set d'. fst kv' = fst kv \<and>
                      results_equivalent (snd kv) (snd kv') = Inr True)"
  unfolding results_equivalent_dict_True_iff json_dict_items [OF assms] ..

lemma results_equivalent_accepts_sym:
  "is_json a \<Longrightarrow> is_json b \<Longrightarrow>
   results_equivalent a b = Inr True \<longleftrightarrow> results_equivalent b a = Inr True"
proof (induction a arbitrary: b)
  case (VDict d)
  show ?case
  proof (cases b)
    case b: (VDict d')
    note fd = json_dict_facts [OF VDict.prems(1)]
    from VDict.prems(2) b have jd': "is_json (VDict d')" by simp
    note fd' = json_dict_facts [OF jd']
    let ?R = "\<lambda>v v'. results_equivalent v v' = Inr True"
    have ih: "?R (snd kv) (snd kv') \<longleftrightarrow> ?R (snd kv') (snd kv)"
      if "kv \<in> set d" "kv' \<in> set d'" for kv kv'
    proof -
      obtain k v where kv: "kv = (k, v)" by (cases kv)
      from that fd' have "is_json (snd kv')" by blast
      moreover from that fd have "is_json (snd kv)" by blast
      ultimately show ?thesis
        using VDict.IH(2) [of kv v "snd kv'"] that kv by simp
    qed
    let ?S = "\<lambda>d d'. length d = length d' \<and>
      (\<forall>kv \<in> set d. \<exists>kv' \<in> set d'. fst kv' = fst kv \<and> ?R (snd kv) (snd kv'))"
    have S: "?S d d' \<longleftrightarrow> ?S d' d"
    proof
      assume "?S d d'"
      then have l: "length d = length d'"
        and f: "\<forall>kv \<in> set d. \<exists>kv' \<in> set d'. fst kv' = fst kv \<and> ?R (snd kv) (snd kv')"
        by simp_all
      have "\<forall>kv' \<in> set d'. \<exists>kv \<in> set d. fst kv = fst kv' \<and> ?R (snd kv') (snd kv)"
      proof (rule json_dict_rel_flip [where R = ?R, OF l _ _ f])
        show "distinct (map fst d)" using fd by simp
        show "distinct (map fst d')" using fd' by simp
        show "?R (snd kv') (snd kv)"
          if "kv \<in> set d" "kv' \<in> set d'" "?R (snd kv) (snd kv')" for kv kv'
          using ih [OF that(1,2)] that(3) by simp
      qed
      with l show "?S d' d" by simp
    next
      assume "?S d' d"
      then have l: "length d' = length d"
        and f: "\<forall>kv' \<in> set d'. \<exists>kv \<in> set d. fst kv = fst kv' \<and> ?R (snd kv') (snd kv)"
        by simp_all
      have "\<forall>kv \<in> set d. \<exists>kv' \<in> set d'. fst kv' = fst kv \<and> ?R (snd kv) (snd kv')"
      proof (rule json_dict_rel_flip [where R = ?R, OF l _ _ f])
        show "distinct (map fst d')" using fd' by simp
        show "distinct (map fst d)" using fd by simp
        show "?R (snd kv) (snd kv')"
          if "kv' \<in> set d'" "kv \<in> set d" "?R (snd kv') (snd kv)" for kv kv'
          using ih [OF that(2,1)] that(3) by simp
      qed
      with l show "?S d d'" by simp
    qed
    have "py_eq (VDict d) (VDict d') = py_eq (VDict d') (VDict d)"
      using VDict.prems(1) jd' by (rule py_eq_sym_json)
    with S have "?R (VDict d) (VDict d') \<longleftrightarrow> ?R (VDict d') (VDict d)"
      unfolding results_equivalent_json_dict [OF VDict.prems(1) jd']
        results_equivalent_json_dict [OF jd' VDict.prems(1)]
      by blast
    with b show ?thesis by simp
  next
    case VNone
    with VDict.prems show ?thesis using results_equivalent_shallow_sym [of "VDict d" b] by simp
  next
    case (VBool x)
    with VDict.prems show ?thesis using results_equivalent_shallow_sym [of "VDict d" b] by simp
  next
    case (VInt x)
    with VDict.prems show ?thesis using results_equivalent_shallow_sym [of "VDict d" b] by simp
  next
    case (VFloat x)
    with VDict.prems show ?thesis using results_equivalent_shallow_sym [of "VDict d" b] by simp
  next
    case (VStr x)
    with VDict.prems show ?thesis using results_equivalent_shallow_sym [of "VDict d" b] by simp
  next
    case (VList x)
    with VDict.prems show ?thesis using results_equivalent_shallow_sym [of "VDict d" b] by simp
  next
    case (VTuple x)
    with VDict.prems show ?thesis by simp
  next
    case (VSet x)
    with VDict.prems show ?thesis by simp
  qed
next
  case VNone
  then show ?case using results_equivalent_shallow_sym [of VNone b] by simp
next
  case (VBool x)
  then show ?case using results_equivalent_shallow_sym [of "VBool x" b] by simp
next
  case (VInt x)
  then show ?case using results_equivalent_shallow_sym [of "VInt x" b] by simp
next
  case (VFloat x)
  then show ?case using results_equivalent_shallow_sym [of "VFloat x" b] by simp
next
  case (VStr x)
  then show ?case using results_equivalent_shallow_sym [of "VStr x" b] by simp
next
  case (VList x)
  then show ?case using results_equivalent_shallow_sym [of "VList x" b] by simp
next
  case (VTuple x)
  then show ?case by simp
next
  case (VSet x)
  then show ?case by simp
qed

lemma int_to_float_big: "int_to_float (2 ^ 1024) = Inl OverflowError"
  unfolding int_to_float_def of_int_power of_int_numeral round_double_big by simp

lemma equivalent_1_2: "results_equivalent (VInt 1) (VInt 2) = Inr False"
  by (simp add: results_equivalent_num abs_diff_below_tolerance_def tolerance_value)

lemma equivalent_overflow:
  "results_equivalent (VFloat (Finite (3 / 2))) (VInt (2 ^ 1024)) = Inl OverflowError"
proof -
  have "\<not> py_eq (VFloat (Finite (3 / 2))) (VInt (2 ^ 1024))"
    by simp
  moreover have "abs_diff_below_tolerance (NFloat (Finite (3 / 2))) (NInt (2 ^ 1024)) = Inl OverflowError"
    unfolding abs_diff_below_tolerance_def num_sub.simps int_to_float_big by simp
  ultimately show ?thesis
    using results_equivalent_num [of "VFloat (Finite (3 / 2))" "NFloat (Finite (3 / 2))"
        "VInt (2 ^ 1024)" "NInt (2 ^ 1024)"]
    by simp
qed


subsection \<open>The loops of the drivers\<close>

subsection \<open>Decimal digits\<close>






subsection \<open>The evaluation of the cases\<close>









subsection \<open>The loops of the drivers\<close>











lemma results_equivalent_None: "results_equivalent VNone expected = Inr (expected = VNone)"
  by (subst results_equivalent.simps) (simp add: is_number_def)

lemma class_harness_None: "class_harness_results_equivalent VNone expected = Inr (expected = VNone)"
  using harness_copies_agree [of VNone expected] by (simp add: results_equivalent_None)



lemma char_of_49: "char_of (49 :: nat) = CHR ''1''"
  by code_simp

lemma result_line_1_1: "result_line (Suc 0) (Suc 0) = ''__RESULT__:1/1''"
  by (simp add: result_line_def str_of_nat.simps char_of_49)

lemma class_step_zero:
  "class_steps_loop cls 0 ((method_name, method_args, expected) # rest) s =
     (case construct cls method_args s of
        Inl e \<Rightarrow> Inl e
      | Inr s' \<Rightarrow>
          if expected = VNone then class_steps_loop cls 1 rest s' else Inl AssertionError)"
  by (cases "method_args = []"; cases "construct cls method_args s")
     (simp_all add: class_harness_None)


section \<open>The claims\<close>

subsection \<open>C1: the sandbox executor's verdict\<close>

text \<open>
  C1, as claimed: success if and only if the child exits with status zero and the
  output has a line of the exact form \<^verbatim>\<open>__RESULT__:<passed>/<total>\<close>. The code tests
  \<^verbatim>\<open>"__RESULT__" in out\<close>: a child that exits with status zero after printing the bare
  marker is a success although no line has the exact form.
\<close>

theorem run_file_and_capture_counterexample:
  "fst (run_file_and_capture marker_only_os ''print('__RESULT__')'' 8) \<and>
   \<not> has_result_line (snd (run_file_and_capture marker_only_os ''print('__RESULT__')'' 8))"
  by (simp add: run_file_and_capture_def marker_only_os_def or_empty_def has_result_line_def
      is_result_line_def)

text \<open>
  C1, amended: \<open>run_file_and_capture\<close> returns success if and only if the child ran to
  its end with return code zero and the captured standard output followed by the
  captured standard error contains the text \<^verbatim>\<open>__RESULT__\<close>; a line of the exact form
  is enough for that. A timeout returns failure with the text \<^verbatim>\<open>TimeoutExpired\<close>, any
  other exception returns failure with its traceback.
\<close>

theorem run_file_and_capture_success:
  "(fst (run_file_and_capture os py_code timeout) \<longleftrightarrow>
      (\<exists>out err. os py_code timeout = Completed 0 out err \<and>
                 contains ''__RESULT__'' (or_empty out @ or_empty err))) \<and>
   (os py_code timeout = Completed 0 out' err' \<and> has_result_line (or_empty out' @ or_empty err')
      \<longrightarrow> run_file_and_capture os py_code timeout = (True, or_empty out' @ or_empty err')) \<and>
   (os py_code timeout = RaisedTimeoutExpired
      \<longrightarrow> run_file_and_capture os py_code timeout = (False, ''TimeoutExpired'')) \<and>
   (os py_code timeout = RaisedException trace
      \<longrightarrow> run_file_and_capture os py_code timeout = (False, trace))"
proof -
  have "fst (run_file_and_capture os py_code timeout) \<longleftrightarrow>
      (\<exists>out err. os py_code timeout = Completed 0 out err \<and>
                 contains ''__RESULT__'' (or_empty out @ or_empty err))"
    by (cases "os py_code timeout") (auto simp: run_file_and_capture_def Let_def)
  moreover have "os py_code timeout = Completed 0 out' err' \<and>
      has_result_line (or_empty out' @ or_empty err')
      \<longrightarrow> run_file_and_capture os py_code timeout = (True, or_empty out' @ or_empty err')"
    using result_line_marker by (auto simp: run_file_and_capture_def Let_def)
  moreover have "os py_code timeout = RaisedTimeoutExpired
      \<longrightarrow> run_file_and_capture os py_code timeout = (False, ''TimeoutExpired'')"
    by (simp add: run_file_and_capture_def)
  moreover have "os py_code timeout = RaisedException trace
      \<longrightarrow> run_file_and_capture os py_code timeout = (False, trace)"
    by (simp add: run_file_and_capture_def)
  ultimately show ?thesis by blast
qed

theorem run_file_and_capture_witness:
  "run_file_and_capture passing_os [] 8 = (True, ''__RESULT__:1/1\<newline>'') \<and>
   has_result_line ''__RESULT__:1/1\<newline>''"
  using run_file_and_capture_success [of passing_os "[]" 8 "Some ''__RESULT__:1/1\<newline>''" "Some []"]
  by (simp add: passing_os_def or_empty_def has_result_line_def is_result_line_def is_digits_def)

subsection \<open>C2: the task shape classifier\<close>

text \<open>
  C2, as claimed: object-shaped if and only if the first case's input is a two-element
  sequence whose first element is a non-empty sequence that starts with a string. The
  code also requires \<^verbatim>\<open>isinstance(first_input[1], list)\<close>: the input
  \<^verbatim>\<open>[["Stack", "push"], 1]\<close> has the claimed shape and is classified function-shaped.
\<close>

theorem is_class_based_task_counterexample:
  "claimed_object_shaped [(VList [VList [VStr ''Stack'', VStr ''push''], VInt 1], VNone)] \<and>
   \<not> is_class_based_task [(VList [VList [VStr ''Stack'', VStr ''push''], VInt 1], VNone)]"
  by (simp add: claimed_object_shaped_def is_class_based_task_def)

text \<open>
  C2, amended: \<open>is_class_based_task\<close> returns true if and only if there is at least one
  case and the first case's input is a list of exactly two elements, the first a
  non-empty list whose first element is a string and the second a list as well. It
  returns true for the first input \<^verbatim>\<open>[["Stack","push","pop"], [[], [1], []]]\<close>, false for
  the first input \<^verbatim>\<open>[1, 2]\<close> and false for an empty case list.
\<close>

theorem is_class_based_task_iff:
  "(is_class_based_task test_cases \<longleftrightarrow>
      (\<exists>name methods args_list out rest.
         test_cases = (VList [VList (VStr name # methods), VList args_list], out) # rest)) \<and>
   is_class_based_task
     [(VList [VList [VStr ''Stack'', VStr ''push'', VStr ''pop''],
              VList [VList [], VList [VInt 1], VList []]], out1)] \<and>
   \<not> is_class_based_task [(VList [VInt 1, VInt 2], out2)] \<and>
   \<not> is_class_based_task []"
proof -
  have "is_class_based_task test_cases \<longleftrightarrow>
      (\<exists>name methods args_list out rest.
         test_cases = (VList [VList (VStr name # methods), VList args_list], out) # rest)"
  proof (cases test_cases)
    case Nil
    then show ?thesis by (simp add: is_class_based_task_def)
  next
    case (Cons c rest)
    obtain first_input out where c: "c = (first_input, out)" by (cases c)
    show ?thesis
    proof
      assume "is_class_based_task test_cases"
      with Cons c have h: "is_list first_input" "length (list_of first_input) = 2"
        "is_list (list_of first_input ! 0)" "is_list (list_of first_input ! 1)"
        "length (list_of (list_of first_input ! 0)) > 0"
        "is_str (list_of (list_of first_input ! 0) ! 0)"
        by (auto simp: is_class_based_task_def Let_def split: if_splits)
      from h(1) obtain xs where xs: "first_input = VList xs" by (auto simp: is_list_iff)
      from h(2) xs obtain a b where ab: "xs = [a, b]" by (auto simp: length_two)
      from h(3) xs ab obtain ms where ms: "a = VList ms" by (auto simp: is_list_iff)
      from h(4) xs ab obtain ys where ys: "b = VList ys" by (auto simp: is_list_iff)
      from h(5) xs ab ms obtain m ms' where m: "ms = m # ms'" by (cases ms) auto
      from h(6) xs ab ms m obtain name where "m = VStr name" by (auto simp: is_str_iff)
      with Cons c xs ab ms ys m show "\<exists>name methods args_list out rest.
         test_cases = (VList [VList (VStr name # methods), VList args_list], out) # rest"
        by simp
    next
      assume "\<exists>name methods args_list out rest.
         test_cases = (VList [VList (VStr name # methods), VList args_list], out) # rest"
      then show "is_class_based_task test_cases"
        by (auto simp: is_class_based_task_def)
    qed
  qed
  moreover have "is_class_based_task
     [(VList [VList [VStr ''Stack'', VStr ''push'', VStr ''pop''],
              VList [VList [], VList [VInt 1], VList []]], out1)]"
    by (simp add: is_class_based_task_def)
  moreover have "\<not> is_class_based_task [(VList [VInt 1, VInt 2], out2)]"
    by (simp add: is_class_based_task_def)
  moreover have "\<not> is_class_based_task []"
    by (simp add: is_class_based_task_def)
  ultimately show ?thesis by blast
qed

theorem is_class_based_task_witness:
  "is_class_based_task [(VList [VList [VStr ''MinStack'', VStr ''push''], VList [VList [], VList [VInt 2]]], VList [VNone, VNone])]"
  using is_class_based_task_iff [of "[(VList [VList [VStr ''MinStack'', VStr ''push''], VList [VList [], VList [VInt 2]]], VList [VNone, VNone])]"]
  by simp


subsection \<open>C4: ordered sequences\<close>

text \<open>
  C4: when both arguments are lists or tuples, in any combination, the result is
  that of \<^verbatim>\<open>list(result) == list(expected)\<close>, and never an error: the two have the same
  length and, position by position, the elements are one object or are \<^verbatim>\<open>==\<close>. The
  equivalence relation is not applied to the elements. So two one-element sequences
  whose elements are two numbers that are not \<^verbatim>\<open>==\<close>, but differ by less than the
  tolerance, are not equivalent, although their elements are; in general two
  one-element sequences are not equivalent when their elements are neither one object
  nor \<^verbatim>\<open>==\<close>. \<^verbatim>\<open>[1,2]\<close> and \<^verbatim>\<open>(1,2)\<close> are equivalent, \<^verbatim>\<open>[1,2]\<close> and \<^verbatim>\<open>[2,1]\<close> are not, \<^verbatim>\<open>[3]\<close>
  and \<^verbatim>\<open>[3.0000000001]\<close> are not.
\<close>

theorem results_equivalent_sequences:
  "(is_list_or_tuple a \<and> is_list_or_tuple b \<longrightarrow>
      results_equivalent a b =
        Inr (list_all2 (\<lambda>x y. same_nan x y \<or> py_eq x y) (list_of a) (list_of b))) \<and>
   (is_list_or_tuple a \<and> is_list_or_tuple b \<and> list_of a = [x] \<and> list_of b = [y] \<and>
    as_number x = Some n \<and> as_number y = Some m \<and> \<not> py_eq x y \<and>
    abs_diff_below_tolerance n m = Inr True \<longrightarrow>
      results_equivalent a b = Inr False \<and> results_equivalent x y = Inr True) \<and>
   (is_list_or_tuple a \<and> is_list_or_tuple b \<and> list_of a = [x] \<and> list_of b = [y] \<and>
    \<not> same_nan x y \<and> \<not> py_eq x y \<longrightarrow>
      results_equivalent a b = Inr False) \<and>
   results_equivalent (VList [VInt 1, VInt 2]) (VTuple [VInt 1, VInt 2]) = Inr True \<and>
   results_equivalent (VList [VInt 1, VInt 2]) (VList [VInt 2, VInt 1]) = Inr False \<and>
   results_equivalent (VList [VInt 3])
     (VList [VFloat (float_literal (30000000001 / 10000000000))]) = Inr False"
proof -
  have seq: "results_equivalent a b =
      Inr (list_all2 (\<lambda>x y. same_nan x y \<or> py_eq x y) (list_of a) (list_of b))"
    if "is_list_or_tuple a" "is_list_or_tuple b"
    using that by (simp add: results_equivalent_seq py_eq_or_is_def [abs_def])
  have one: "results_equivalent a b = Inr False"
    if "is_list_or_tuple a" "is_list_or_tuple b" "list_of a = [x]" "list_of b = [y]"
      "\<not> same_nan x y" "\<not> py_eq x y"
    using that by (simp add: seq)
  have near: "results_equivalent a b = Inr False \<and> results_equivalent x y = Inr True"
    if "is_list_or_tuple a" "is_list_or_tuple b" "list_of a = [x]" "list_of b = [y]"
      "as_number x = Some n" "as_number y = Some m" "\<not> py_eq x y"
      "abs_diff_below_tolerance n m = Inr True"
  proof -
    have "\<not> is_nan x"
    proof
      assume "is_nan x"
      then obtain i where "x = VFloat (NaN i)" by (cases x rule: is_nan.cases) simp_all
      with that(5) have "n = NFloat (NaN i)" by simp
      then have "abs_diff_below_tolerance n m = Inr False \<or> (\<exists>e. abs_diff_below_tolerance n m = Inl e)"
        by (cases m) (auto simp: abs_diff_below_tolerance_def split: sum.splits)
      with that(8) show False by auto
    qed
    then have "\<not> same_nan x y" by (simp add: same_nan_iff)
    with that have "results_equivalent a b = Inr False" by (intro one)
    moreover from that have "results_equivalent x y = Inr True"
      by (simp add: results_equivalent_num)
    ultimately show ?thesis by simp
  qed
  have "results_equivalent (VList [VInt 1, VInt 2]) (VTuple [VInt 1, VInt 2]) = Inr True"
    by (simp add: results_equivalent_seq py_eq_or_is_def)
  moreover have "results_equivalent (VList [VInt 1, VInt 2]) (VList [VInt 2, VInt 1]) = Inr False"
    by (simp add: results_equivalent_seq py_eq_or_is_def)
  moreover have "results_equivalent (VList [VInt 3])
     (VList [VFloat (float_literal (30000000001 / 10000000000))]) = Inr False"
    by (simp add: results_equivalent_seq py_eq_or_is_def literal_a)
  ultimately show ?thesis
    using seq one near by blast
qed

theorem results_equivalent_sequences_witness:
  "results_equivalent (VInt 3) (VFloat (float_literal (30000000001 / 10000000000))) = Inr True \<and>
   results_equivalent (VTuple [VInt 3])
     (VList [VFloat (float_literal (30000000001 / 10000000000))]) = Inr False \<and>
   results_equivalent (VList [VFloat (NaN 0)]) (VTuple [VFloat (NaN 0)]) = Inr True \<and>
   results_equivalent (VList [VFloat (NaN 0)]) (VTuple [VFloat (NaN 1)]) = Inr False"
proof -
  have "\<not> py_eq (VInt 3) (VFloat (float_literal (30000000001 / 10000000000)))"
    by (simp add: literal_a)
  moreover have "abs_diff_below_tolerance (NInt 3)
      (NFloat (float_literal (30000000001 / 10000000000))) = Inr True"
    by (simp add: literal_a abs_diff_below_tolerance_def int_to_float_def
        round_double_3 sub_a tolerance_value)
  ultimately have "results_equivalent (VTuple [VInt 3])
      (VList [VFloat (float_literal (30000000001 / 10000000000))]) = Inr False \<and>
    results_equivalent (VInt 3) (VFloat (float_literal (30000000001 / 10000000000))) = Inr True"
    using results_equivalent_sequences [of "VTuple [VInt 3]"
        "VList [VFloat (float_literal (30000000001 / 10000000000))]" "VInt 3"
        "VFloat (float_literal (30000000001 / 10000000000))" "NInt 3"
        "NFloat (float_literal (30000000001 / 10000000000))"]
    by simp
  moreover have "results_equivalent (VList [VFloat (NaN 0)]) (VTuple [VFloat (NaN 0)]) = Inr True"
    using results_equivalent_sequences [of "VList [VFloat (NaN 0)]" "VTuple [VFloat (NaN 0)]"]
    by simp
  moreover have "results_equivalent (VList [VFloat (NaN 0)]) (VTuple [VFloat (NaN 1)]) = Inr False"
    using results_equivalent_sequences [of "VList [VFloat (NaN 0)]" "VTuple [VFloat (NaN 1)]"]
    by simp
  ultimately show ?thesis by simp
qed

subsection \<open>C5: mappings\<close>

text \<open>
  C5, as claimed: two dicts are equivalent if and only if their key sets are equal and
  the two values at every key are equivalent under the same relation. When a key has
  one and the same NaN object as its value in both dicts (as in a dict compared with
  itself, or with a copy of itself), the dicts are \<^verbatim>\<open>==\<close>, because \<^verbatim>\<open>==\<close> on dicts accepts
  values that are one object, and rule 1 makes them equivalent; but the value is not
  equivalent to itself.
\<close>

theorem results_equivalent_mappings_counterexample:
  "results_equivalent (VDict [(VStr ''a'', VFloat (NaN 0))])
                      (VDict [(VStr ''a'', VFloat (NaN 0))]) = Inr True \<and>
   py_set_eq [VStr ''a''] [VStr ''a''] \<and>
   py_getitem [(VStr ''a'', VFloat (NaN 0))] (VStr ''a'') = Inr (VFloat (NaN 0)) \<and>
   results_equivalent (VFloat (NaN 0)) (VFloat (NaN 0)) = Inr False"
proof -
  have "results_equivalent (VDict [(VStr ''a'', VFloat (NaN 0))])
                      (VDict [(VStr ''a'', VFloat (NaN 0))]) = Inr True"
    by (simp add: results_equivalent_py_eq py_eq_or_is_def)
  moreover have "results_equivalent (VFloat (NaN 0)) (VFloat (NaN 0)) = Inr False"
    by (simp add: results_equivalent_num abs_diff_below_tolerance_def)
  ultimately show ?thesis
    by (simp add: py_set_eq_def py_getitem_def py_eq_or_is_def)
qed

text \<open>
  C5, amended: two dicts are equivalent if and only if they are \<^verbatim>\<open>==\<close>, or their key sets
  are equal and, for every item of the first, the value the second has at that key is
  equivalent to the item's value under the same relation. When no NaN object is the
  value of one key in both dicts, the first case is part of the second, and the
  claimed equivalence holds. The order of the keys does not matter: for dicts with
  string keys the outcome depends only on the number of items and on the items as
  sets (\<^verbatim>\<open>{"a":1,"b":2}\<close> against \<^verbatim>\<open>{"b":2,"a":1}\<close>); and the numeric tolerance applies
  to the values of a dict (\<^verbatim>\<open>{"a":3}\<close> against \<^verbatim>\<open>{"a":3.0000000001}\<close>).
\<close>

theorem results_equivalent_mappings:
  "(results_equivalent (VDict d) (VDict d') = Inr True \<longleftrightarrow>
      py_eq (VDict d) (VDict d') \<or>
      py_set_eq (map fst d) (map fst d') \<and>
      (\<forall>kv \<in> set d. \<exists>v'. py_getitem d' (fst kv) = Inr v' \<and>
                             results_equivalent (snd kv) v' = Inr True)) \<and>
   ((\<forall>kv \<in> set d. \<not> (is_nan (snd kv) \<and> py_getitem d' (fst kv) = Inr (snd kv))) \<longrightarrow>
      (results_equivalent (VDict d) (VDict d') = Inr True \<longleftrightarrow>
         py_set_eq (map fst d) (map fst d') \<and>
         (\<forall>kv \<in> set d. \<exists>v'. py_getitem d' (fst kv) = Inr v' \<and>
                                results_equivalent (snd kv) v' = Inr True))) \<and>
   (is_json (VDict d) \<and> is_json (VDict d') \<and>
    (\<forall>kv \<in> set d. \<not> (is_nan (snd kv) \<and> py_getitem d' (fst kv) = Inr (snd kv))) \<longrightarrow>
      (results_equivalent (VDict d) (VDict d') = Inr True \<longleftrightarrow>
         length d = length d' \<and>
         (\<forall>kv \<in> set d. \<exists>kv' \<in> set d'. fst kv' = fst kv \<and>
                          results_equivalent (snd kv) (snd kv') = Inr True))) \<and>
   results_equivalent (VDict [(VStr ''a'', VInt 1), (VStr ''b'', VInt 2)])
                      (VDict [(VStr ''b'', VInt 2), (VStr ''a'', VInt 1)]) = Inr True \<and>
   results_equivalent (VDict [(VStr ''a'', VInt 3)])
                      (VDict [(VStr ''a'', VFloat (float_literal (30000000001 / 10000000000)))]) = Inr True"
proof -
  let ?nan = "\<forall>kv \<in> set d. \<not> (is_nan (snd kv) \<and> py_getitem d' (fst kv) = Inr (snd kv))"
  let ?items = "py_set_eq (map fst d) (map fst d') \<and>
      (\<forall>kv \<in> set d. \<exists>v'. py_getitem d' (fst kv) = Inr v' \<and>
                             results_equivalent (snd kv) v' = Inr True)"
  have general: "results_equivalent (VDict d) (VDict d') = Inr True \<longleftrightarrow>
      py_eq (VDict d) (VDict d') \<or> ?items"
    by (rule results_equivalent_dict_True_iff)
  have eq: "?items" if "?nan" "py_eq (VDict d) (VDict d')"
    using that(2,1) by (rule py_eq_dict_values)
  have restricted: "results_equivalent (VDict d) (VDict d') = Inr True \<longleftrightarrow> ?items" if "?nan"
    using general eq [OF that] by blast
  have json: "results_equivalent (VDict d) (VDict d') = Inr True \<longleftrightarrow>
         length d = length d' \<and>
         (\<forall>kv \<in> set d. \<exists>kv' \<in> set d'. fst kv' = fst kv \<and>
                          results_equivalent (snd kv) (snd kv') = Inr True)"
    if j: "is_json (VDict d)" "is_json (VDict d')" and n: "?nan"
  proof -
    have "?items \<longleftrightarrow> length d = length d' \<and>
         (\<forall>kv \<in> set d. \<exists>kv' \<in> set d'. fst kv' = fst kv \<and>
                          results_equivalent (snd kv) (snd kv') = Inr True)"
      by (rule json_dict_items [OF j])
    with restricted [OF n] show ?thesis by simp
  qed
  have "results_equivalent (VDict [(VStr ''a'', VInt 1), (VStr ''b'', VInt 2)])
                      (VDict [(VStr ''b'', VInt 2), (VStr ''a'', VInt 1)]) = Inr True"
    by (simp add: results_equivalent_py_eq py_eq_or_is_def)
  moreover have "results_equivalent (VDict [(VStr ''a'', VInt 3)])
                      (VDict [(VStr ''a'', VFloat (float_literal (30000000001 / 10000000000)))]) = Inr True"
    by (simp add: results_equivalent_dict_True_iff py_set_eq_def py_getitem_def py_eq_or_is_def
        equivalent_3_literal_a del: py_eq_dict)
  ultimately show ?thesis
    using general restricted json by blast
qed

theorem results_equivalent_mappings_witness:
  "is_json (VDict [(VStr ''k'', VStr '' x'')]) \<and> is_json (VDict [(VStr ''k'', VStr ''x '')]) \<and>
   \<not> is_nan (VStr '' x'') \<and>
   results_equivalent (VDict [(VStr ''k'', VStr '' x'')]) (VDict [(VStr ''k'', VStr ''x '')]) = Inr True"
proof -
  have "results_equivalent (VStr '' x'') (VStr ''x '') = Inr True"
    by (subst results_equivalent.simps) (simp add: py_strip_def py_isspace_def)
  then show ?thesis
    using results_equivalent_mappings [of "[(VStr ''k'', VStr '' x'')]" "[(VStr ''k'', VStr ''x '')]"]
    by (simp add: py_set_eq_def py_getitem_def py_eq_or_is_def)
qed

subsection \<open>C6: numbers\<close>

text \<open>
  C6, as claimed: two numbers are equivalent if and only if their absolute difference
  is below \<^verbatim>\<open>1e-9\<close>. Two equal infinities are equivalent by the direct equality of
  rule 1, while their difference is NaN and \<^verbatim>\<open>abs(result - expected) < 1e-9\<close> is false.
\<close>

theorem results_equivalent_numbers_counterexample:
  "results_equivalent (VFloat PosInf) (VFloat PosInf) = Inr True \<and>
   num_sub (NFloat PosInf) (NFloat PosInf) = Inr (NFloat (NaN 0)) \<and>
   \<not> num_lt (num_abs (NFloat (NaN 0))) (NFloat (float_literal (1 / 10 ^ 9)))"
  by (simp add: results_equivalent_py_eq)

text \<open>
  C6, amended: when both arguments are numbers (\<^verbatim>\<open>bool\<close>, \<^verbatim>\<open>int\<close> or \<^verbatim>\<open>float\<close>, in any
  combination) and they are not the same infinity, they are equivalent if and only if
  the difference that Python computes is, in absolute value, strictly below the
  binary64 number \<open>4835703278458517 / 2 ^ 82\<close>, which is what the literal \<^verbatim>\<open>1e-9\<close>
  denotes: the binary64 number nearest to \<open>1 / 10 ^ 9\<close>, less than \<open>1 / 2 ^ 83\<close> away
  from it. The difference of two \<^verbatim>\<open>int\<close> is exact; otherwise an \<^verbatim>\<open>int\<close> operand is
  converted to \<^verbatim>\<open>float\<close>, which raises \<^verbatim>\<open>OverflowError\<close> when it is too large, and the
  difference of the two floats is rounded; a difference that is infinite or NaN is not
  below the bound. 3 and 3.0 are equivalent, 3 and 3.0000000001 are, 3 and 3.1 are
  not; 0.0 and the bound itself are not equivalent, 0.0 and the binary64 number just
  below the bound are, and two different \<^verbatim>\<open>int\<close> are not.
\<close>

theorem results_equivalent_numbers:
  "(as_number a = Some x \<and> as_number b = Some y \<and> valid_number x \<and> valid_number y \<and>
    \<not> (x = NFloat PosInf \<and> y = NFloat PosInf) \<and> \<not> (x = NFloat NegInf \<and> y = NFloat NegInf)
      \<longrightarrow> results_equivalent a b =
            (case num_sub x y of
               Inl e \<Rightarrow> Inl e
             | Inr (NInt k) \<Rightarrow> Inr (\<bar>of_int k\<bar> < (4835703278458517 / 2 ^ 82 :: rat))
             | Inr (NFloat (Finite d)) \<Rightarrow> Inr (\<bar>d\<bar> < 4835703278458517 / 2 ^ 82)
             | Inr (NFloat _) \<Rightarrow> Inr False)) \<and>
   float_literal (1 / 10 ^ 9) = Finite (4835703278458517 / 2 ^ 82) \<and>
   \<bar>4835703278458517 / 2 ^ 82 - 1 / 10 ^ 9\<bar> < (1 / 2 ^ 83 :: rat) \<and>
   results_equivalent (VInt 3) (VFloat (Finite 3)) = Inr True \<and>
   results_equivalent (VInt 3) (VFloat (float_literal (30000000001 / 10000000000))) = Inr True \<and>
   results_equivalent (VInt 3) (VFloat (float_literal (31 / 10))) = Inr False \<and>
   results_equivalent (VFloat (Finite 0)) (VFloat (Finite (4835703278458517 / 2 ^ 82))) = Inr False \<and>
   results_equivalent (VFloat (Finite 0)) (VFloat (Finite (4835703278458516 / 2 ^ 82))) = Inr True \<and>
   results_equivalent (VInt 1) (VInt 2) = Inr False"
proof -
  have "results_equivalent a b =
            (case num_sub x y of
               Inl e \<Rightarrow> Inl e
             | Inr (NInt k) \<Rightarrow> Inr (\<bar>of_int k\<bar> < (4835703278458517 / 2 ^ 82 :: rat))
             | Inr (NFloat (Finite d)) \<Rightarrow> Inr (\<bar>d\<bar> < 4835703278458517 / 2 ^ 82)
             | Inr (NFloat _) \<Rightarrow> Inr False)"
    if "as_number a = Some x" "as_number b = Some y" "valid_number x" "valid_number y"
      "\<not> (x = NFloat PosInf \<and> y = NFloat PosInf)" "\<not> (x = NFloat NegInf \<and> y = NFloat NegInf)"
  proof -
    have "results_equivalent a b = abs_diff_below_tolerance x y"
      using that abs_diff_of_equal_numbers [of x y]
      by (simp add: results_equivalent_num py_eq_numbers)
    then show ?thesis by (simp add: abs_diff_explicit)
  qed
  moreover have "float_literal (1 / 10 ^ 9) = Finite (4835703278458517 / 2 ^ 82)"
    by (simp add: tolerance_value)
  moreover have "\<bar>4835703278458517 / 2 ^ 82 - 1 / 10 ^ 9\<bar> < (1 / 2 ^ 83 :: rat)"
    by simp
  moreover have "results_equivalent (VInt 3) (VFloat (Finite 3)) = Inr True"
    by (simp add: results_equivalent_py_eq)
  moreover have "results_equivalent (VInt 3) (VFloat (float_literal (30000000001 / 10000000000))) = Inr True"
    by (simp add: results_equivalent_num literal_a abs_diff_below_tolerance_def int_to_float_def
        round_double_3 sub_a tolerance_value)
  moreover have "results_equivalent (VInt 3) (VFloat (float_literal (31 / 10))) = Inr False"
    by (simp add: results_equivalent_num literal_b abs_diff_below_tolerance_def int_to_float_def
        round_double_3 sub_b tolerance_value)
  moreover have "results_equivalent (VFloat (Finite 0)) (VFloat (Finite (4835703278458517 / 2 ^ 82))) = Inr False"
    using sub_tolerance by (simp add: results_equivalent_num abs_diff_explicit)
  moreover have "results_equivalent (VFloat (Finite 0)) (VFloat (Finite (4835703278458516 / 2 ^ 82))) = Inr True"
    using sub_below_tolerance by (simp add: results_equivalent_num abs_diff_explicit)
  moreover have "results_equivalent (VInt 1) (VInt 2) = Inr False"
    by (simp add: results_equivalent_num abs_diff_explicit)
  ultimately show ?thesis by blast
qed

theorem results_equivalent_numbers_witness:
  "valid_number (NInt 3) \<and> valid_number (NFloat (Finite 3)) \<and>
   num_sub (NInt 3) (NFloat (Finite 3)) = Inr (NFloat (Finite 0)) \<and>
   results_equivalent (VInt 3) (VFloat (Finite 3)) = Inr True"
proof -
  have v: "valid_number (NInt 3) \<and> valid_number (NFloat (Finite 3))"
    by (simp add: valid_float_def round_double_3)
  have s: "num_sub (NInt 3) (NFloat (Finite 3)) = Inr (NFloat (Finite 0))"
    by (simp add: int_to_float_def round_double_3 round_double_0)
  with v show ?thesis
    using results_equivalent_numbers [of "VInt 3" "NInt 3" "VFloat (Finite 3)" "NFloat (Finite 3)"]
    by simp
qed

subsection \<open>C9: the three copies of the equivalence routine\<close>

text \<open>
  C9: the routine of the host process and the two routines written into the
  harnesses return the same result, or raise the same exception, on every pair of
  values. The rule for sets that only the host has returns the outcome of \<^verbatim>\<open>==\<close>, which
  rule 1 has already found false when the rule is reached: on two sets the host
  accepts exactly the pairs that are \<^verbatim>\<open>==\<close>.
\<close>

theorem equivalence_copies_agree:
  "function_harness_results_equivalent a b = results_equivalent a b \<and>
   class_harness_results_equivalent a b = results_equivalent a b \<and>
   (is_set a \<and> is_set b \<longrightarrow> results_equivalent a b = Inr (py_eq a b))"
proof -
  have "results_equivalent a b = Inr (py_eq a b)" if "is_set a" "is_set b"
    using that by (subst results_equivalent.simps) (cases a; cases b; simp)
  then show ?thesis
    using harness_copies_agree by blast
qed

theorem equivalence_copies_agree_witness:
  "is_set (VSet [VInt 1, VInt 2]) \<and> is_set (VSet [VInt 2, VFloat (Finite 1)]) \<and>
   results_equivalent (VSet [VInt 1, VInt 2]) (VSet [VInt 2, VFloat (Finite 1)]) = Inr True \<and>
   function_harness_results_equivalent (VSet [VInt 1, VInt 2]) (VSet [VInt 2, VFloat (Finite 1)]) = Inr True \<and>
   class_harness_results_equivalent (VSet [VInt 1, VInt 2]) (VSet [VInt 2, VFloat (Finite 1)]) = Inr True"
  using equivalence_copies_agree [of "VSet [VInt 1, VInt 2]" "VSet [VInt 2, VFloat (Finite 1)]"]
  by simp


subsection \<open>C8: reflexivity\<close>

text \<open>
  C8, as claimed: \<open>results_equivalent v v\<close> is true for every value, every float
  included. A NaN is a float that is not equivalent to itself: \<^verbatim>\<open>nan == nan\<close> is false,
  and so is \<^verbatim>\<open>abs(nan - nan) < 1e-9\<close>.
\<close>

theorem results_equivalent_reflexive_counterexample:
  "results_equivalent (VFloat (NaN 0)) (VFloat (NaN 0)) = Inr False"
  by (simp add: results_equivalent_num abs_diff_below_tolerance_def)

text \<open>
  C8, amended: \<open>results_equivalent v v\<close> is true for every value of the kinds the
  relation knows other than a NaN float: every other float, the infinities included,
  and every list, tuple, dict and set, also one that holds a NaN, because \<^verbatim>\<open>==\<close> on a
  container accepts an element that is one object on both sides.
\<close>

theorem results_equivalent_reflexive:
  "well_formed v \<and> \<not> is_nan v \<longrightarrow> results_equivalent v v = Inr True"
  by (simp add: py_eq_refl results_equivalent_py_eq)

theorem results_equivalent_reflexive_witness:
  "well_formed (VDict [(VStr ''a'', VList [VFloat (NaN 0), VNone]), (VInt 1, VSet [VFloat PosInf])]) \<and>
   results_equivalent (VDict [(VStr ''a'', VList [VFloat (NaN 0), VNone]), (VInt 1, VSet [VFloat PosInf])])
     (VDict [(VStr ''a'', VList [VFloat (NaN 0), VNone]), (VInt 1, VSet [VFloat PosInf])]) = Inr True"
  using results_equivalent_reflexive
    [of "VDict [(VStr ''a'', VList [VFloat (NaN 0), VNone]), (VInt 1, VSet [VFloat PosInf])]"]
  by (simp add: py_eq_or_is_def)

subsection \<open>C10: symmetry on JSON values\<close>

text \<open>
  C10, as claimed: \<open>results_equivalent a b\<close> equals \<open>results_equivalent b a\<close> for all JSON
  values. The dict rule visits the items of its first argument in their order and
  stops at the first that is not equivalent, and comparing an \<^verbatim>\<open>int\<close> too large for a
  \<^verbatim>\<open>float\<close> with a different \<^verbatim>\<open>float\<close> raises \<^verbatim>\<open>OverflowError\<close>: with
  \<^verbatim>\<open>{"x": 1, "y": 2**1024}\<close> and \<^verbatim>\<open>{"y": 1.5, "x": 2}\<close> one order returns false and the
  other raises.
\<close>

theorem results_equivalent_symmetric_counterexample:
  "is_json (VDict [(VStr ''x'', VInt 1), (VStr ''y'', VInt (2 ^ 1024))]) \<and>
   is_json (VDict [(VStr ''y'', VFloat (Finite (3 / 2))), (VStr ''x'', VInt 2)]) \<and>
   results_equivalent (VDict [(VStr ''x'', VInt 1), (VStr ''y'', VInt (2 ^ 1024))])
                      (VDict [(VStr ''y'', VFloat (Finite (3 / 2))), (VStr ''x'', VInt 2)]) = Inr False \<and>
   results_equivalent (VDict [(VStr ''y'', VFloat (Finite (3 / 2))), (VStr ''x'', VInt 2)])
                      (VDict [(VStr ''x'', VInt 1), (VStr ''y'', VInt (2 ^ 1024))]) = Inl OverflowError"
  using equivalent_1_2 equivalent_overflow
  by (simp add: results_equivalent_dict py_set_eq_def py_getitem_def)

text \<open>
  C10, amended: for all JSON values \<open>a\<close> and \<open>b\<close>, \<open>results_equivalent a b\<close> returns true
  if and only if \<open>results_equivalent b a\<close> returns true, and whenever both calls return
  (neither raises) they return the same value.
\<close>

theorem results_equivalent_symmetric:
  "is_json a \<and> is_json b \<longrightarrow>
     (results_equivalent a b = Inr True \<longleftrightarrow> results_equivalent b a = Inr True) \<and>
     (\<forall>x y. results_equivalent a b = Inr x \<and> results_equivalent b a = Inr y \<longrightarrow> x = y)"
proof
  assume j: "is_json a \<and> is_json b"
  then have acc: "results_equivalent a b = Inr True \<longleftrightarrow> results_equivalent b a = Inr True"
    by (simp add: results_equivalent_accepts_sym)
  have "x = y" if "results_equivalent a b = Inr x" "results_equivalent b a = Inr y" for x y
    using that acc by (cases x; cases y) simp_all
  with acc show "(results_equivalent a b = Inr True \<longleftrightarrow> results_equivalent b a = Inr True) \<and>
     (\<forall>x y. results_equivalent a b = Inr x \<and> results_equivalent b a = Inr y \<longrightarrow> x = y)"
    by blast
qed

theorem results_equivalent_symmetric_witness:
  "is_json (VDict [(VStr ''k'', VStr '' x'')]) \<and> is_json (VDict [(VStr ''k'', VStr ''x '')]) \<and>
   results_equivalent (VDict [(VStr ''k'', VStr '' x'')]) (VDict [(VStr ''k'', VStr ''x '')]) = Inr True \<and>
   results_equivalent (VDict [(VStr ''k'', VStr ''x '')]) (VDict [(VStr ''k'', VStr '' x'')]) = Inr True"
proof -
  have "results_equivalent (VStr '' x'') (VStr ''x '') = Inr True"
    by (subst results_equivalent.simps) (simp add: py_strip_def py_isspace_def)
  then have "results_equivalent (VDict [(VStr ''k'', VStr '' x'')]) (VDict [(VStr ''k'', VStr ''x '')]) = Inr True"
    by (simp add: results_equivalent_dict_True_iff py_set_eq_def py_getitem_def)
  then show ?thesis
    using results_equivalent_symmetric [of "VDict [(VStr ''k'', VStr '' x'')]" "VDict [(VStr ''k'', VStr ''x '')]"]
    by simp
qed


subsection \<open>C3: step 0 of the object-shaped driver\<close>

text \<open>
  C3, as claimed: the expected value at index 0 is not checked, so a case whose later
  steps all match completes whatever \<^verbatim>\<open>expected[0]\<close> is. The code sets
  \<^verbatim>\<open>result = None\<close> at step 0 and then runs the same \<^verbatim>\<open>results_equivalent(result, expected)\<close>
  check as for every other step: with \<^verbatim>\<open>expected[0] = 5\<close> the driver raises
  \<^verbatim>\<open>AssertionError\<close> at step 0 although the later step matches, and with
  \<^verbatim>\<open>expected[0] = None\<close> the same case completes.
\<close>

theorem class_driver_step_zero_counterexample:
  "class_harness_run_tests (Some accepting_class)
     [([VStr ''Stack'', VStr ''size''], [[], []], [VInt 5, VNone])] () =
     \<lparr>invoked = [0], printed = [], aborted = Some AssertionError\<rparr> \<and>
   class_harness_run_tests (Some accepting_class)
     [([VStr ''Stack'', VStr ''size''], [[], []], [VNone, VNone])] () =
     \<lparr>invoked = [0], printed = [''__RESULT__:1/1''], aborted = None\<rparr>"
  by (simp add: class_harness_run_tests_def accepting_class_def class_harness_None
      result_line_1_1)

text \<open>
  C3, amended: step 0 of every case instantiates the resolved class with
  \<^verbatim>\<open>method_args[0]\<close> as positional arguments (no arguments if that list is empty); its
  result is taken to be \<^verbatim>\<open>None\<close> and is compared with \<^verbatim>\<open>expected[0]\<close> like every other
  step's. When the constructor returns, the driver goes on to step 1 if
  \<^verbatim>\<open>expected[0]\<close> is \<^verbatim>\<open>None\<close> and raises \<^verbatim>\<open>AssertionError\<close> otherwise; so a case whose
  constructor returns and whose later steps all match is completed if and only if
  \<^verbatim>\<open>expected[0]\<close> is \<^verbatim>\<open>None\<close>.
\<close>

theorem class_driver_step_zero:
  "class_steps_loop cls 0 ((method_name, method_args, expected) # rest) s =
     (case construct cls method_args s of
        Inl e \<Rightarrow> Inl e
      | Inr s' \<Rightarrow>
          if expected = VNone then class_steps_loop cls 1 rest s' else Inl AssertionError) \<and>
   (length methods = length args_list \<and> length methods = length expected_list \<and>
    construct cls method_args s = Inr s' \<and>
    class_steps_loop cls 1 (zip methods (zip args_list expected_list)) s' = Inr s''
    \<longrightarrow> snd (class_cases_loop cls
               [(method_name # methods, method_args # args_list, expected # expected_list)]
               case_idx passed total' s) =
          (if expected = VNone then Inr (passed + 1, total' + 1) else Inl AssertionError))"
proof (intro conjI impI)
  show "class_steps_loop cls 0 ((method_name, method_args, expected) # rest) s =
     (case construct cls method_args s of
        Inl e \<Rightarrow> Inl e
      | Inr s' \<Rightarrow>
          if expected = VNone then class_steps_loop cls 1 rest s' else Inl AssertionError)"
    by (rule class_step_zero)
next
  assume a: "length methods = length args_list \<and> length methods = length expected_list \<and>
    construct cls method_args s = Inr s' \<and>
    class_steps_loop cls 1 (zip methods (zip args_list expected_list)) s' = Inr s''"
  then have "class_steps_loop cls 0
      (zip (method_name # methods) (zip (method_args # args_list) (expected # expected_list))) s =
      (if expected = VNone then Inr s'' else Inl AssertionError)"
    by (simp add: class_step_zero del: class_steps_loop.simps)
  with a show "snd (class_cases_loop cls
               [(method_name # methods, method_args # args_list, expected # expected_list)]
               case_idx passed total' s) =
          (if expected = VNone then Inr (passed + 1, total' + 1) else Inl AssertionError)"
    by (simp del: class_steps_loop.simps)
qed

theorem class_driver_step_zero_witness:
  "construct accepting_class [] () = Inr () \<and>
   class_steps_loop accepting_class 1 (zip [VStr ''size''] (zip [[]] [VNone])) () = Inr () \<and>
   snd (class_cases_loop accepting_class
          [([VStr ''Stack'', VStr ''size''], [[], []], [VNone, VNone])] 0 0 0 ()) = Inr (1, 1)"
proof -
  have c: "construct accepting_class [] () = Inr ()"
    by (simp add: accepting_class_def)
  have l: "class_steps_loop accepting_class 1 (zip [VStr ''size''] (zip [[]] [VNone])) () = Inr ()"
    by (simp add: accepting_class_def class_harness_None)
  from c l show ?thesis
    using class_driver_step_zero [of accepting_class "VStr ''Stack''" "[]" VNone "[]" "()"
        "[VStr ''size'']" "[[]]" "[VNone]" "()" "()" 0 0 0]
    by (simp del: class_steps_loop.simps class_cases_loop.simps)
qed

subsection \<open>C7: the function-shaped driver is fail-fast\<close>





end
